theory Spec2Isabelle
  imports Main "HOL-Library.Sublist"
begin

section \<open>JavaScript strings\<close>

text \<open>
  A JavaScript string is a sequence of UTF-16 code units. The source matches and counts
  code units (\<open>length\<close>, \<open>.\<close>, character classes with non-ASCII glyphs), so a string is
  modelled as the list of its code units, each a natural number.
\<close>

type_synonym jschar = nat
type_synonym jsstring = "jschar list"

definition js :: "string \<Rightarrow> jsstring" where
  "js s = map of_char s"

definition isLineTerminator :: "jschar \<Rightarrow> bool" where
  "isLineTerminator c = (c = 10 \<or> c = 13 \<or> c = 8232 \<or> c = 8233)"

text \<open>The class \<open>\s\<close>, which is also what \<open>trim\<close> removes: white space and line terminators.\<close>

definition isWhiteSpace :: "jschar \<Rightarrow> bool" where
  "isWhiteSpace c = (c = 9 \<or> c = 10 \<or> c = 11 \<or> c = 12 \<or> c = 13 \<or> c = 32 \<or> c = 160
     \<or> c = 5760 \<or> (8192 \<le> c \<and> c \<le> 8202) \<or> c = 8232 \<or> c = 8233 \<or> c = 8239
     \<or> c = 8287 \<or> c = 12288 \<or> c = 65279)"

definition isWordChar :: "jschar \<Rightarrow> bool" where
  "isWordChar c = ((48 \<le> c \<and> c \<le> 57) \<or> (65 \<le> c \<and> c \<le> 90) \<or> c = 95 \<or> (97 \<le> c \<and> c \<le> 122))"

definition isDigit :: "jschar \<Rightarrow> bool" where
  "isDigit c = (48 \<le> c \<and> c \<le> 57)"

definition trimStart :: "jsstring \<Rightarrow> jsstring" where
  "trimStart s = dropWhile isWhiteSpace s"

definition trimEnd :: "jsstring \<Rightarrow> jsstring" where
  "trimEnd s = rev (dropWhile isWhiteSpace (rev s))"

definition trim :: "jsstring \<Rightarrow> jsstring" where
  "trim s = trimEnd (trimStart s)"

text \<open>\<open>s.startsWith(p)\<close> and \<open>s.includes(p)\<close> (named \<open>includesStr\<close>: \<open>includes\<close> is reserved here).\<close>

fun startsWith :: "jsstring \<Rightarrow> jsstring \<Rightarrow> bool" where
  "startsWith s [] = True"
| "startsWith [] (p # ps) = False"
| "startsWith (x # xs) (p # ps) = (x = p \<and> startsWith xs ps)"

fun includesStr :: "jsstring \<Rightarrow> jsstring \<Rightarrow> bool" where
  "includesStr [] p = startsWith [] p"
| "includesStr (x # xs) p = (startsWith (x # xs) p \<or> includesStr xs p)"

text \<open>\<open>s.split('\n')\<close>: always at least one piece.\<close>

fun splitOn :: "jschar \<Rightarrow> jsstring \<Rightarrow> jsstring list" where
  "splitOn d [] = [[]]"
| "splitOn d (x # xs) =
     (if x = d then [] # splitOn d xs
      else (case splitOn d xs of [] \<Rightarrow> [[x]] | l # ls \<Rightarrow> (x # l) # ls))"

text \<open>\<open>lines.join('\n')\<close>.\<close>

fun joinWith :: "jsstring \<Rightarrow> jsstring list \<Rightarrow> jsstring" where
  "joinWith d [] = []"
| "joinWith d [l] = l"
| "joinWith d (l # ls) = l @ d @ joinWith d ls"

text \<open>\<open>xs.slice(-n)\<close> for a positive \<open>n\<close>: the last \<open>n\<close> elements, all of them when there are fewer.\<close>

definition sliceLast :: "nat \<Rightarrow> 'a list \<Rightarrow> 'a list" where
  "sliceLast n xs = drop (length xs - n) xs"

text \<open>
  \<open>s.toLowerCase()\<close>. Every keyword the source looks for in a lower-cased string is ASCII.
  The code units whose lower case contains an ASCII letter are \<open>A\<close> to \<open>Z\<close>, the Kelvin sign
  U+212A (to \<open>k\<close>) and U+0130 (to \<open>i\<close> followed by U+0307); they are mapped as JavaScript
  maps them. Any other code unit is left as it is: its lower case is not ASCII either.
\<close>

fun toLowerCase :: "jsstring \<Rightarrow> jsstring" where
  "toLowerCase [] = []"
| "toLowerCase (c # cs) =
     (if 65 \<le> c \<and> c \<le> 90 then (c + 32) # toLowerCase cs
      else if c = 8490 then 107 # toLowerCase cs
      else if c = 304 then 105 # 775 # toLowerCase cs
      else c # toLowerCase cs)"

section \<open>Regular expressions\<close>

text \<open>
  The regular expressions of the source use literals, character classes, \<open>.\<close>, the
  quantifiers \<open>*\<close>, \<open>+\<close> and \<open>*?\<close> on a single character class, alternation and \<open>$\<close>.
  A leading \<open>^\<close> is expressed by matching at position 0 only (\<open>rx_matchStart\<close>).
\<close>

datatype item = C jschar | R jschar jschar | S | W | D

fun inItem :: "item \<Rightarrow> jschar \<Rightarrow> bool" where
  "inItem (C d) c = (c = d)"
| "inItem (R lo hi) c = (lo \<le> c \<and> c \<le> hi)"
| "inItem S c = isWhiteSpace c"
| "inItem W c = isWordChar c"
| "inItem D c = isDigit c"

datatype atom = Any | In "item list" | NotIn "item list"

fun matchAtom :: "atom \<Rightarrow> jschar \<Rightarrow> bool" where
  "matchAtom Any c = (\<not> isLineTerminator c)"
| "matchAtom (In is) c = list_ex (\<lambda>i. inItem i c) is"
| "matchAtom (NotIn is) c = (\<not> list_ex (\<lambda>i. inItem i c) is)"

datatype rx = Lit jsstring | One atom | Star atom | Plus atom | LazyStar atom
  | Cat rx rx | Alt rx rx | Eol

text \<open>
  \<open>rems r s\<close> lists what is left of \<open>s\<close> after each way \<open>r\<close> can match a prefix of \<open>s\<close>, in the
  order a backtracking matcher tries them: a greedy quantifier offers the longest
  repetition first, a lazy one the shortest, an alternation its left branch first. The head
  of the list is the match JavaScript reports at this position.
\<close>

fun greedyRems :: "atom \<Rightarrow> jsstring \<Rightarrow> jsstring list" where
  "greedyRems a [] = [[]]"
| "greedyRems a (x # xs) = (if matchAtom a x then greedyRems a xs else []) @ [x # xs]"

fun lazyRems :: "atom \<Rightarrow> jsstring \<Rightarrow> jsstring list" where
  "lazyRems a [] = [[]]"
| "lazyRems a (x # xs) = (x # xs) # (if matchAtom a x then lazyRems a xs else [])"

fun rems :: "rx \<Rightarrow> jsstring \<Rightarrow> jsstring list" where
  "rems (Lit l) s = (if startsWith s l then [drop (length l) s] else [])"
| "rems (One a) s = (case s of [] \<Rightarrow> [] | x # xs \<Rightarrow> if matchAtom a x then [xs] else [])"
| "rems (Star a) s = greedyRems a s"
| "rems (Plus a) s = (case s of [] \<Rightarrow> [] | x # xs \<Rightarrow> if matchAtom a x then greedyRems a xs else [])"
| "rems (LazyStar a) s = lazyRems a s"
| "rems (Cat r1 r2) s = concat (map (rems r2) (rems r1 s))"
| "rems (Alt r1 r2) s = rems r1 s @ rems r2 s"
| "rems Eol s = (if s = [] then [[]] else [])"

text \<open>A regular expression that starts with \<open>^\<close>: it can match at position 0 only.\<close>

definition rx_matchStart :: "rx \<Rightarrow> jsstring \<Rightarrow> bool" where
  "rx_matchStart r s = (rems r s \<noteq> [])"

text \<open>\<open>r.test(s)\<close> without \<open>^\<close>: a match at some position.\<close>

fun rx_test :: "rx \<Rightarrow> jsstring \<Rightarrow> bool" where
  "rx_test r [] = (rems r [] \<noteq> [])"
| "rx_test r (x # xs) = (rems r (x # xs) \<noteq> [] \<or> rx_test r xs)"

text \<open>\<open>patterns.some(pattern => pattern.test(output))\<close>.\<close>

fun someTest :: "rx list \<Rightarrow> jsstring \<Rightarrow> bool" where
  "someTest [] output = False"
| "someTest (pattern # patterns) output = (rx_test pattern output \<or> someTest patterns output)"

text \<open>Several regular expressions in sequence.\<close>

fun cat :: "rx list \<Rightarrow> rx" where
  "cat [] = Lit []"
| "cat [r] = r"
| "cat (r # rs) = Cat r (cat rs)"

fun alt :: "rx list \<Rightarrow> rx" where
  "alt [] = One (In [])"
| "alt [r] = r"
| "alt (r # rs) = Alt r (alt rs)"

section \<open>The prompt interceptor\<close>

text \<open>\<open>hasPermissionPrompt\<close>: one of ten patterns matches somewhere in the window.\<close>

definition promptPatterns :: "rx list" where
  "promptPatterns =
    [ Lit (js ''Do you want to proceed?''),
      cat [Lit [10095], Star (In [S]), Lit (js ''1.''), Star (In [S]), Lit (js ''Yes'')],
      cat [Lit (js ''2.''), Star (In [S]), Lit (js ''Yes''), Star Any,
           Lit (js ''don'' @ [39] @ js ''t ask again'')],
      cat [Lit (js ''3.''), Star (In [S]), Lit (js ''No''), Star Any, Lit (js ''tell Claude'')],
      Lit (js ''Bash command''),
      Lit (js ''List all files and folders''),
      Lit (js ''find /home/casey/claude-condom''),
      Lit (js ''[Y/n]''),
      cat [Lit (js ''Continue?''), Star (In [S]), Lit (js ''('')],
      cat [Lit (js ''Press''), Star Any, Lit (js ''to continue'')] ]"

definition hasPermissionPrompt :: "jsstring \<Rightarrow> bool" where
  "hasPermissionPrompt output = someTest promptPatterns output"

text \<open>\<open>isSafeCommand\<close>: one of eleven patterns matches somewhere in the window.\<close>

definition safeCommands :: "rx list" where
  "safeCommands =
    [ cat [Lit (js ''find''), Star Any, Lit (js ''-type''), Plus (In [S]), Lit (js ''f'')],
      cat [Lit (js ''find''), Star Any, Lit (js ''-type''), Plus (In [S]), Lit (js ''d'')],
      cat [Lit (js ''ls''), Star (In [S])],
      cat [Lit (js ''ls''), Plus (In [S]), Lit (js ''-''), Star (In [C 108, C 97, C 104])],
      Lit (js ''pwd''),
      cat [Lit (js ''head''), Plus (In [S])],
      cat [Lit (js ''tail''), Plus (In [S])],
      cat [Lit (js ''cat''), Plus (In [S]), Star Any, Lit (js ''.''),
           alt [Lit (js ''md''), Lit (js ''txt''), Lit (js ''json''), Lit (js ''js''),
                Lit (js ''ts''), Lit (js ''py'')]],
      cat [Lit (js ''grep''), Plus (In [S])],
      cat [Lit (js ''wc''), Plus (In [S])],
      cat [Lit (js ''file''), Plus (In [S])] ]"

definition isSafeCommand :: "jsstring \<Rightarrow> bool" where
  "isSafeCommand output = someTest safeCommands output"

text \<open>
  \<open>s.replace(r, '')\<close> for a regular expression that starts with \<open>^\<close>: the match at
  position 0 is removed, if there is one.
\<close>

definition rx_removeStart :: "rx \<Rightarrow> jsstring \<Rightarrow> jsstring" where
  "rx_removeStart r s = (case rems r s of [] \<Rightarrow> s | t # _ \<Rightarrow> t)"

text \<open>\<open>s.replace(r, '')\<close> without the flag \<open>g\<close>: the leftmost match is removed.\<close>

fun rx_removeFirst :: "rx \<Rightarrow> jsstring \<Rightarrow> jsstring" where
  "rx_removeFirst r [] = []"
| "rx_removeFirst r (x # xs) =
     (case rems r (x # xs) of [] \<Rightarrow> x # rx_removeFirst r xs | t # _ \<Rightarrow> t)"

text \<open>
  \<open>s.replace(r, '')\<close> with the flag \<open>g\<close>: every match is removed, the search resuming
  where the last match ended. The counter is the number of code units of the current match
  that are still to be dropped; an empty match removes nothing.
\<close>

fun removeAllFrom :: "rx \<Rightarrow> nat \<Rightarrow> jsstring \<Rightarrow> jsstring" where
  "removeAllFrom r k [] = []"
| "removeAllFrom r (Suc k) (x # xs) = removeAllFrom r k xs"
| "removeAllFrom r 0 (x # xs) =
     (case rems r (x # xs) of
        [] \<Rightarrow> x # removeAllFrom r 0 xs
      | t # _ \<Rightarrow>
          (case length (x # xs) - length t of
             0 \<Rightarrow> x # removeAllFrom r 0 xs
           | Suc k \<Rightarrow> removeAllFrom r k xs))"

definition rx_removeAll :: "rx \<Rightarrow> jsstring \<Rightarrow> jsstring" where
  "rx_removeAll r s = removeAllFrom r 0 s"

text \<open>
  \<open>s.match(r)\<close> with the flag \<open>g\<close>, for a regular expression that matches no empty
  string: the matched substrings, left to right.
\<close>

fun matchAllFrom :: "rx \<Rightarrow> nat \<Rightarrow> jsstring \<Rightarrow> jsstring list" where
  "matchAllFrom r k [] = []"
| "matchAllFrom r (Suc k) (x # xs) = matchAllFrom r k xs"
| "matchAllFrom r 0 (x # xs) =
     (case rems r (x # xs) of
        [] \<Rightarrow> matchAllFrom r 0 xs
      | t # _ \<Rightarrow>
          take (length (x # xs) - length t) (x # xs)
            # matchAllFrom r (length (x # xs) - length t - 1) xs)"

definition rx_matchAll :: "rx \<Rightarrow> jsstring \<Rightarrow> jsstring list" where
  "rx_matchAll r s = matchAllFrom r 0 s"

section \<open>The stream classifier\<close>

text \<open>The thinking animation: \<open>/^[glyphs]\s*\w+\<dots>/\<close>, the last character being U+2026.\<close>

definition animationGlyphs :: "item list" where
  "animationGlyphs = [C 10043, C 10045, C 10038, C 42, C 10018, C 183, C 9874]"

definition animationPattern :: rx where
  "animationPattern = cat [One (In animationGlyphs), Star (In [S]), Plus (In [W]), Lit [8230]]"

text \<open>The fixed interface lines: \<open>/^(alternatives)$/\<close>.\<close>

definition noisePattern :: rx where
  "noisePattern =
     Cat (alt [ cat [Lit (js ''?''), Star Any, Lit (js ''for shortcuts'')],
                Lit (js ''Press Ctrl-C''),
                Lit (js ''Try '' @ [34] @ js ''refactor''),
                Lit (js ''Auto-updating to v''),
                cat [Lit [10007], Star Any, Lit (js ''Auto-update failed'')] ])
         Eol"

text \<open>The box-drawing characters and white space that are trimmed at both ends of a line.\<close>

definition boxChars :: "item list" where
  "boxChars =
     [C 9474, C 9484, C 9488, C 9492, C 9496, C 9500, C 9508, C 9516, C 9524, C 9532,
      C 9472, C 9552, C 9553, C 9556, C 9559, C 9562, C 9565, C 9568, C 9571, C 9574,
      C 9577, C 9580, C 9581, C 9582, C 9584, C 9583, S]"

text \<open>The timing indicator: \<open>/\(\d+s\s*\<cdot>.*?\)/\<close>, the dot being U+00B7.\<close>

definition timingPattern :: rx where
  "timingPattern =
     cat [Lit (js ''(''), Plus (In [D]), Lit (js ''s''), Star (In [S]), Lit [183],
          LazyStar Any, Lit (js '')'')]"

definition cleanLine :: "jsstring \<Rightarrow> jsstring" where
  "cleanLine line =
     trim (rx_removeFirst timingPattern
            (rx_removeFirst (Cat (Star (In boxChars)) Eol)
              (rx_removeStart (Star (In boxChars)) line)))"

fun extractMeaningfulContent :: "jsstring list \<Rightarrow> jsstring list" where
  "extractMeaningfulContent [] = []"
| "extractMeaningfulContent (line # lines) =
     (if line = [] \<or> length (trim line) = 0 then extractMeaningfulContent lines
      else if rx_matchStart animationPattern line then extractMeaningfulContent lines
      else if rx_matchStart noisePattern line then extractMeaningfulContent lines
      else if length (cleanLine line) > 2
        then cleanLine line # extractMeaningfulContent lines
        else extractMeaningfulContent lines)"

text \<open>
  What the data handler does to a raw chunk before it classifies the lines: the colour
  codes \<open>/\x1b\[[0-9;]*m/g\<close>, the other escape sequences \<open>/\x1b\[[0-9;]*[A-Za-z]/g\<close> and the
  carriage returns are removed, the text is split at line feeds and every line is trimmed.
\<close>

definition colourCode :: rx where
  "colourCode = cat [Lit [27, 91], Star (In [R 48 57, C 59]), Lit [109]]"

definition escapeSequence :: rx where
  "escapeSequence = cat [Lit [27, 91], Star (In [R 48 57, C 59]), One (In [R 65 90, R 97 122])]"

definition cleanData :: "jsstring \<Rightarrow> jsstring" where
  "cleanData d = rx_removeAll (Lit [13]) (rx_removeAll escapeSequence (rx_removeAll colourCode d))"

definition allLines :: "jsstring \<Rightarrow> jsstring list" where
  "allLines d = map trim (splitOn 10 (cleanData d))"

text \<open>
  The output buffer after a chunk has been classified: the meaningful lines are pushed,
  and a buffer of more than 5000 lines is cut down to its last 2500.
\<close>

definition pushContent :: "jsstring list \<Rightarrow> jsstring list \<Rightarrow> jsstring list" where
  "pushContent buffer meaningfulContent =
     (let buffer1 = (if length meaningfulContent > 0 then buffer @ meaningfulContent else buffer)
      in if length buffer1 > 5000 then sliceLast 2500 buffer1 else buffer1)"

section \<open>Key content\<close>

text \<open>The test of \<open>extractKeyContent\<close> on a trimmed line.\<close>

definition isKeyLine :: "jsstring \<Rightarrow> bool" where
  "isKeyLine cl =
     (startsWith cl [9679] \<or> startsWith cl (js ''-'')
      \<or> includesStr cl (js ''directory contains'')
      \<or> includesStr cl (js ''files in'')
      \<or> (includesStr cl (js ''.'')
          \<and> (includesStr cl (js ''py'') \<or> includesStr cl (js ''js'')
             \<or> includesStr cl (js ''md'') \<or> includesStr cl (js ''json''))))"

fun keyLines :: "jsstring list \<Rightarrow> jsstring list" where
  "keyLines [] = []"
| "keyLines (line # lines) =
     (if isKeyLine (trim line) then trim line # keyLines lines else keyLines lines)"

text \<open>The fallback: sentences \<open>/[A-Z][^.!?]*[.!?]/g\<close>, filtered, at most three of them.\<close>

definition sentencePattern :: rx where
  "sentencePattern =
     cat [One (In [R 65 90]), Star (NotIn [C 46, C 33, C 63]), One (In [C 46, C 33, C 63])]"

definition isMeaningfulSentence :: "jsstring \<Rightarrow> bool" where
  "isMeaningfulSentence s =
     (length s > 20 \<and> \<not> includesStr s (js ''shortcuts'') \<and> \<not> includesStr s (js ''Auto-update'')
      \<and> \<not> includesStr s (js ''Try '' @ [34]))"

fun meaningfulSentences :: "jsstring list \<Rightarrow> jsstring list" where
  "meaningfulSentences [] = []"
| "meaningfulSentences (s # ss) =
     (if isMeaningfulSentence s then s # meaningfulSentences ss else meaningfulSentences ss)"

definition extractKeyContent :: "jsstring \<Rightarrow> jsstring" where
  "extractKeyContent fullResponse =
     (let keyContent = keyLines (splitOn 10 fullResponse)
      in if length keyContent > 0 then joinWith [10] keyContent
         else joinWith (js '' '')
                (take 3 (meaningfulSentences (rx_matchAll sentencePattern fullResponse))))"

section \<open>The wrapper and its environment\<close>

text \<open>
  The fields of \<open>AIWrapper\<close> that the request protocol reads or writes, and the effects of
  a request as logs: what was written to the pseudo-terminal, which delays were awaited,
  which prompts were sent to the secondary model. \<open>claudeProcess\<close> says whether the handle
  is non-null. \<open>pending\<close> is the environment: the events (data chunks, exit of the process)
  that arrive while the request is suspended, one batch for each \<open>await\<close> of a timer or of
  the secondary model, none once the list is used up. Handlers run only while the request
  is suspended. Logging and the notification callbacks are left out.
\<close>

datatype event = Data jsstring | Exit

record wrapper =
  personalityPrompt :: jsstring
  claudeProcess :: bool
  claudeOutputBuffer :: "jsstring list"
  written :: "jsstring list"
  timers :: "nat list"
  prompts :: "jsstring list"
  pending :: "event list list"

definition onData :: "wrapper \<Rightarrow> jsstring \<Rightarrow> wrapper" where
  "onData w d =
     w\<lparr>claudeOutputBuffer :=
         pushContent (claudeOutputBuffer w) (extractMeaningfulContent (allLines d))\<rparr>"

definition onExit :: "wrapper \<Rightarrow> wrapper" where
  "onExit w = w\<lparr>claudeProcess := False\<rparr>"

fun handleEvent :: "wrapper \<Rightarrow> event \<Rightarrow> wrapper" where
  "handleEvent w (Data d) = onData w d"
| "handleEvent w Exit = onExit w"

definition yield :: "wrapper \<Rightarrow> wrapper" where
  "yield w =
     (case pending w of [] \<Rightarrow> w | batch # rest \<Rightarrow> foldl handleEvent (w\<lparr>pending := rest\<rparr>) batch)"

text \<open>\<open>await new Promise(resolve => setTimeout(resolve, ms))\<close>.\<close>

definition sleep :: "nat \<Rightarrow> wrapper \<Rightarrow> wrapper" where
  "sleep ms w = yield (w\<lparr>timers := timers w @ [ms]\<rparr>)"

text \<open>
  The secondary model: \<open>generate\<close> never throws, it returns a response, an error, both or
  neither. Its answer may depend on the prompt and on how many calls came before.
\<close>

record genResult =
  response :: "jsstring option"
  error :: "jsstring option"

type_synonym ollama = "nat \<Rightarrow> jsstring \<Rightarrow> genResult"

definition generate :: "ollama \<Rightarrow> jsstring \<Rightarrow> wrapper \<Rightarrow> genResult \<times> wrapper" where
  "generate ol prompt w = (ol (length (prompts w)) prompt, yield (w\<lparr>prompts := prompts w @ [prompt]\<rparr>))"

text \<open>Truthiness of an optional string: defined and not empty.\<close>

fun truthy :: "jsstring option \<Rightarrow> bool" where
  "truthy None = False"
| "truthy (Some s) = (s \<noteq> [])"

text \<open>\<open>result.response && !result.error\<close>.\<close>

definition succeeded :: "genResult \<Rightarrow> bool" where
  "succeeded result = (truthy (response result) \<and> \<not> truthy (error result))"

text \<open>
  What \<open>processRequest\<close> resolves to: a response with its source tag, or an error alone.
\<close>

datatype outcome = Reply jsstring jsstring | Failure jsstring

text \<open>
  The exceptions of the request: \<open>Claude Code is not running\<close>, thrown by
  \<open>sendToClaudeCode\<close>, and the \<open>TypeError\<close> of a write on a null handle.
\<close>

datatype failure = NotRunning | WriteOnNull

text \<open>
  \<open>loadPersonalityPrompt\<close>: the trimmed contents of the file, or the default text when the
  file is missing or cannot be read.
\<close>

definition loadPersonalityPrompt :: "jsstring option \<Rightarrow> wrapper \<Rightarrow> wrapper" where
  "loadPersonalityPrompt file w =
     (case file of
        Some content \<Rightarrow> w\<lparr>personalityPrompt := trim content\<rparr>
      | None \<Rightarrow> w\<lparr>personalityPrompt := js ''You are a helpful AI assistant.''\<rparr>)"

text \<open>\<open>this.claudeProcess.write(data)\<close>: a \<open>TypeError\<close> when the handle is null.\<close>

definition ptyWrite :: "jsstring \<Rightarrow> wrapper \<Rightarrow> failure option \<times> wrapper" where
  "ptyWrite d w =
     (if claudeProcess w then (None, w\<lparr>written := written w @ [d]\<rparr>) else (Some WriteOnNull, w))"

text \<open>
  \<open>sendToClaudeCode\<close>: Ctrl-C, a wait of 100 ms, the input, a wait of 100 ms, a carriage
  return. The handle is tested once, before the first write.
\<close>

definition sendToClaudeCode :: "jsstring \<Rightarrow> wrapper \<Rightarrow> failure option \<times> wrapper" where
  "sendToClaudeCode input w =
     (if claudeProcess w then
        (case ptyWrite [3] w of
           (Some e, w1) \<Rightarrow> (Some e, w1)
         | (None, w1) \<Rightarrow>
             (case ptyWrite input (sleep 100 w1) of
                (Some e, w2) \<Rightarrow> (Some e, w2)
              | (None, w2) \<Rightarrow> ptyWrite [13] (sleep 100 w2)))
      else (Some NotRunning, w))"

text \<open>
  \<open>autoApprovePrompt\<close>: three substring tests in order choose what is sent, then a wait
  of one second.
\<close>

definition autoApprovePrompt :: "jsstring \<Rightarrow> wrapper \<Rightarrow> failure option \<times> wrapper" where
  "autoApprovePrompt output w =
     (case (if includesStr output ([10095] @ js '' 1. Yes'') then sendToClaudeCode (js ''1'') w
            else if includesStr output (js ''[Y/n]'') then sendToClaudeCode (js ''Y'') w
            else if includesStr output (js ''Do you want to proceed?'') then sendToClaudeCode (js ''y'') w
            else (None, w)) of
        (Some e, w1) \<Rightarrow> (Some e, w1)
      | (None, w1) \<Rightarrow> (None, sleep 1000 w1))"

text \<open>\<open>handlePromptViaAni\<close> and the template of its prompt.\<close>

definition aniPrompt :: "jsstring \<Rightarrow> jsstring \<Rightarrow> jsstring \<Rightarrow> jsstring" where
  "aniPrompt userInput claudePrompt personality =
     [10] @ js ''User asked: '' @ [34] @ userInput @ [34, 10]
     @ js ''Claude is asking for permission: '' @ claudePrompt @ [10, 10]
     @ personality @ [10, 10]
     @ js ''Claude needs permission to proceed. Please explain to the user what Claude wants to do and ask if they want to proceed. Be helpful and clear about what the command will do.''
     @ [10] @ js ''    ''"

definition handlePromptViaAni ::
  "ollama \<Rightarrow> jsstring \<Rightarrow> jsstring \<Rightarrow> wrapper \<Rightarrow> outcome option \<times> wrapper" where
  "handlePromptViaAni ol userInput claudePrompt w =
     (case generate ol (aniPrompt userInput claudePrompt (personalityPrompt w)) w of
        (result, w1) \<Rightarrow>
          (case response result of
             Some r \<Rightarrow>
               (if succeeded result then (Some (Reply r (js ''claude+prompt+gemma'')), w1)
                else (None, w1))
           | None \<Rightarrow> (None, w1)))"

section \<open>Processing a request\<close>

text \<open>The direct path: the secondary model alone answers (the end of \<open>processRequest\<close>).\<close>

definition fullPrompt :: "jsstring \<Rightarrow> jsstring \<Rightarrow> jsstring" where
  "fullPrompt userInput personality =
     [10] @ js ''User Query: '' @ userInput @ [10, 10]
     @ personality @ [10, 10]
     @ js ''Please respond to the user'' @ [39] @ js ''s query in character.''
     @ [10] @ js ''    ''"

definition pureGemma :: "ollama \<Rightarrow> jsstring \<Rightarrow> wrapper \<Rightarrow> outcome \<times> wrapper" where
  "pureGemma ol userInput w =
     (case generate ol (fullPrompt userInput (personalityPrompt w)) w of
        (result, w1) \<Rightarrow>
          (case error result of
             Some e \<Rightarrow>
               (if e \<noteq> [] then (Failure e, w1)
                else (Reply (case response result of
                               Some r \<Rightarrow> if r \<noteq> [] then r else js ''No response generated.''
                             | None \<Rightarrow> js ''No response generated.'') (js ''gemma''), w1))
           | None \<Rightarrow>
               (Reply (case response result of
                         Some r \<Rightarrow> if r \<noteq> [] then r else js ''No response generated.''
                       | None \<Rightarrow> js ''No response generated.'') (js ''gemma''), w1)))"

text \<open>
  The polling loop of \<open>processRequest\<close>: \<open>tick\<close> is one pass through its body, with the
  values of \<open>lastBufferLength\<close> and \<open>stableCount\<close> it starts from. The body either goes on
  to the next attempt (\<open>Continue\<close>, with the new values of the two counters) or leaves the
  loop (\<open>Stop\<close>): by \<open>return\<close> (\<open>Returned\<close>), by \<open>break\<close> (\<open>Finished\<close>), or by an exception
  (\<open>Thrown\<close>), which \<open>processRequest\<close> catches. A loop that uses up its attempts is
  \<open>Finished\<close> too. The first number of \<open>pollLoop\<close> is how many of the \<open>maxWait\<close> attempts
  are left.
\<close>

datatype loopExit = Returned outcome | Finished | Thrown failure

datatype tickResult = Continue nat nat wrapper | Stop loopExit wrapper

definition latestOutput :: "wrapper \<Rightarrow> jsstring" where
  "latestOutput w = joinWith [10] (sliceLast 10 (claudeOutputBuffer w))"

definition tick :: "ollama \<Rightarrow> jsstring \<Rightarrow> nat \<Rightarrow> nat \<Rightarrow> nat \<Rightarrow> wrapper \<Rightarrow> tickResult" where
  "tick ol userInput initialBufferLength lastBufferLength stableCount w =
     (let w1 = sleep 500 w in
      if length (claudeOutputBuffer w1) > lastBufferLength then
        (if hasPermissionPrompt (latestOutput w1) then
           (if isSafeCommand (latestOutput w1) then
              (case autoApprovePrompt (latestOutput w1) w1 of
                 (Some e, w2) \<Rightarrow> Stop (Thrown e) w2
               | (None, w2) \<Rightarrow> Continue (length (claudeOutputBuffer w2)) 0 w2)
            else
              (case handlePromptViaAni ol userInput (latestOutput w1) w1 of
                 (Some promptResponse, w2) \<Rightarrow> Stop (Returned promptResponse) w2
               | (None, w2) \<Rightarrow> Stop Finished w2))
         else Continue (length (claudeOutputBuffer w1)) 0 w1)
      else
        (if stableCount + 1 \<ge> 6 \<and> length (claudeOutputBuffer w1) > initialBufferLength
         then Stop Finished w1
         else Continue lastBufferLength (stableCount + 1) w1))"

fun pollLoop ::
  "ollama \<Rightarrow> jsstring \<Rightarrow> nat \<Rightarrow> nat \<Rightarrow> nat \<Rightarrow> nat \<Rightarrow> wrapper \<Rightarrow> loopExit \<times> wrapper" where
  "pollLoop ol userInput initialBufferLength 0 lastBufferLength stableCount w = (Finished, w)"
| "pollLoop ol userInput initialBufferLength (Suc n) lastBufferLength stableCount w =
     (case tick ol userInput initialBufferLength lastBufferLength stableCount w of
        Continue lastBufferLength1 stableCount1 w1 \<Rightarrow>
          pollLoop ol userInput initialBufferLength n lastBufferLength1 stableCount1 w1
      | Stop e w1 \<Rightarrow> (e, w1))"

text \<open>After the loop: the response of the session since the request, handed to the secondary model.\<close>

definition simplePrompt :: "jsstring \<Rightarrow> jsstring \<Rightarrow> jsstring \<Rightarrow> jsstring" where
  "simplePrompt userInput claudeResponse personality =
     [10] @ js ''User asked: '' @ [34] @ userInput @ [34, 10]
     @ js ''Claude found: '' @ claudeResponse @ [10, 10]
     @ personality @ [10, 10]
     @ js ''Please respond as Ani using the information Claude provided.''
     @ [10] @ js ''            ''"

definition claudeResponseOf :: "nat \<Rightarrow> wrapper \<Rightarrow> jsstring" where
  "claudeResponseOf initialBufferLength w =
     extractKeyContent (trim (joinWith [10] (drop initialBufferLength (claudeOutputBuffer w))))"

definition afterLoop :: "ollama \<Rightarrow> jsstring \<Rightarrow> nat \<Rightarrow> wrapper \<Rightarrow> outcome \<times> wrapper" where
  "afterLoop ol userInput initialBufferLength w =
     (if length (claudeOutputBuffer w) > initialBufferLength then
        (if length (claudeResponseOf initialBufferLength w) > 10 then
           (case generate ol (simplePrompt userInput (claudeResponseOf initialBufferLength w)
                                (personalityPrompt w)) w of
              (result, w1) \<Rightarrow>
                (case response result of
                   Some r \<Rightarrow>
                     (if succeeded result then (Reply r (js ''claude+gemma''), w1)
                      else pureGemma ol userInput w1)
                 | None \<Rightarrow> pureGemma ol userInput w1))
         else pureGemma ol userInput w)
      else pureGemma ol userInput w)"

definition technicalKeywords :: "jsstring list" where
  "technicalKeywords =
     [js ''code'', js ''function'', js ''debug'', js ''error'', js ''programming'', js ''algorithm'',
      js ''api'', js ''database'', js ''server'', js ''framework'', js ''library'', js ''bug'', js ''test'',
      js ''file'', js ''files'', js ''read'', js ''write'', js ''edit'', js ''folder'', js ''folders'',
      js ''directory'', js ''see the folder'', js ''view'', js ''list'', js ''ls'', js ''cd'', js ''pwd'',
      js ''show me'', js ''backspace'', js ''typo'', js ''typos'', js ''implementation'', js ''see the'',
      js ''ability'', js ''project'', js ''summary'', js ''what is this'', js ''about'', js ''analyze'',
      js ''explain'']"

fun someIncluded :: "jsstring list \<Rightarrow> jsstring \<Rightarrow> bool" where
  "someIncluded [] inputLower = False"
| "someIncluded (keyword # keywords) inputLower =
     (includesStr inputLower keyword \<or> someIncluded keywords inputLower)"

definition isTechnical :: "jsstring \<Rightarrow> bool" where
  "isTechnical userInput = someIncluded technicalKeywords (toLowerCase userInput)"

definition enhancedInput :: "jsstring \<Rightarrow> jsstring" where
  "enhancedInput userInput =
     (if includesStr (toLowerCase userInput) (js ''files'')
         \<or> includesStr (toLowerCase userInput) (js ''folder'')
      then userInput
           @ js ''. Please actually run the command to show me the real files, don''
           @ [39] @ js ''t just describe what you would do.''
      else userInput)"

definition maxWait :: nat where
  "maxWait = 60"

text \<open>
  \<open>processRequest\<close>. \<open>file\<close> is the contents of \<open>personality.txt\<close> when the request arrives,
  \<open>None\<close> when it is missing or unreadable.
\<close>

definition processRequest ::
  "ollama \<Rightarrow> jsstring option \<Rightarrow> jsstring \<Rightarrow> wrapper \<Rightarrow> outcome \<times> wrapper" where
  "processRequest ol file userInput w0 =
     (let w = loadPersonalityPrompt file w0 in
      if isTechnical userInput \<and> claudeProcess w then
        (let initialBufferLength = length (claudeOutputBuffer w) in
         case sendToClaudeCode (enhancedInput userInput) w of
           (Some e, w1) \<Rightarrow> pureGemma ol userInput w1
         | (None, w1) \<Rightarrow>
             (case pollLoop ol userInput initialBufferLength maxWait initialBufferLength 0 w1 of
                (Returned r, w2) \<Rightarrow> (r, w2)
              | (Thrown e, w2) \<Rightarrow> pureGemma ol userInput w2
              | (Finished, w2) \<Rightarrow> afterLoop ol userInput initialBufferLength w2))
      else pureGemma ol userInput w)"

section \<open>The environment and the specification's words\<close>

text \<open>The session does not exit during the events still to come.\<close>

definition noExit :: "event list list \<Rightarrow> bool" where
  "noExit evs = (Exit \<notin> set (concat evs))"

text \<open>
  The session produces no output: every event still to come is a chunk of data from which
  the classifier keeps no line.
\<close>

fun silentEvent :: "event \<Rightarrow> bool" where
  "silentEvent (Data d) = (extractMeaningfulContent (allLines d) = [])"
| "silentEvent Exit = False"

definition silentPending :: "event list list \<Rightarrow> bool" where
  "silentPending evs = list_all silentEvent (concat evs)"

text \<open>
  An animation line in the narrow sense of the classifier's pattern: one of its seven
  glyphs (U+273B, U+273D, U+2736, the asterisk, U+2722, U+00B7, U+2692), optional white
  space, a word of ASCII letters, digits and underscores, and the single character U+2026
  at the end. The specification's words (a leading glyph, a single word, a trailing
  ellipsis) name none of these classes; other glyphs and an ellipsis of three full stops
  are outside this predicate.
\<close>

definition animationLine :: "jsstring \<Rightarrow> bool" where
  "animationLine line =
     (case line of
        [] \<Rightarrow> False
      | glyph # rest \<Rightarrow>
          glyph \<in> set [10043, 10045, 10038, 42, 10018, 183, 9874]
          \<and> takeWhile isWordChar (dropWhile isWhiteSpace rest) \<noteq> []
          \<and> dropWhile isWordChar (dropWhile isWhiteSpace rest) = [8230])"

text \<open>
  The mutating verbs as the specification lists them: write, delete, modify, install,
  create. The source has no such list; this is what a claim about them quantifies over.
\<close>

definition spec_mutatingVerbs :: "jsstring list" where
  "spec_mutatingVerbs = [js ''write'', js ''delete'', js ''modify'', js ''install'', js ''create'']"

definition spec_hasMutatingVerb :: "jsstring \<Rightarrow> bool" where
  "spec_hasMutatingVerb evidence = someIncluded spec_mutatingVerbs evidence"

text \<open>A running session with an empty buffer and nothing logged, and two secondary models.\<close>

definition idle :: wrapper where
  "idle = \<lparr>personalityPrompt = [], claudeProcess = True, claudeOutputBuffer = [],
            written = [], timers = [], prompts = [], pending = []\<rparr>"

definition replies :: "jsstring \<Rightarrow> ollama" where
  "replies r = (\<lambda>n p. \<lparr>response = Some r, error = None\<rparr>)"

definition failsFirst :: "jsstring \<Rightarrow> jsstring \<Rightarrow> ollama" where
  "failsFirst e r =
     (\<lambda>n p. if n = 0 then \<lparr>response = None, error = Some e\<rparr> else \<lparr>response = Some r, error = None\<rparr>)"

section \<open>The output buffer\<close>

lemma truncate_props:
  fixes B :: "'a list"
  shows "suffix (if length B > 5000 then drop (length B - 2500) B else B) B"
    and "length B > 5000 \<Longrightarrow> length (drop (length B - 2500) B) = 2500"
  by (auto simp: suffix_drop)

lemma pushContent_eq:
  "pushContent b m = (if length (b @ m) > 5000 then drop (length (b @ m) - 2500) (b @ m) else b @ m)"
  by (cases m) (simp_all add: pushContent_def sliceLast_def Let_def del: drop_append)

text \<open>
  Claim C7. When a chunk arrives, the buffer becomes the old buffer followed by the new
  lines if that is at most 5000 lines long, and the last 2500 lines of it otherwise. In
  both cases the new buffer is a suffix of the old buffer followed by the new lines, so
  the lines that survive keep their order; and the buffer is no shorter than before unless
  it went over 5000 lines and was cut to 2500.
\<close>

theorem output_log_append_truncate:
  "claudeOutputBuffer (onData w d) =
     (if length (claudeOutputBuffer w @ extractMeaningfulContent (allLines d)) > 5000
      then drop (length (claudeOutputBuffer w @ extractMeaningfulContent (allLines d)) - 2500)
             (claudeOutputBuffer w @ extractMeaningfulContent (allLines d))
      else claudeOutputBuffer w @ extractMeaningfulContent (allLines d))
   \<and> suffix (claudeOutputBuffer (onData w d))
        (claudeOutputBuffer w @ extractMeaningfulContent (allLines d))
   \<and> (length (claudeOutputBuffer w) \<le> length (claudeOutputBuffer (onData w d))
      \<or> (length (claudeOutputBuffer w @ extractMeaningfulContent (allLines d)) > 5000
         \<and> length (claudeOutputBuffer (onData w d)) = 2500))"
proof -
  define B where "B = claudeOutputBuffer w @ extractMeaningfulContent (allLines d)"
  have eq: "claudeOutputBuffer (onData w d) = (if length B > 5000 then drop (length B - 2500) B else B)"
    unfolding B_def by (simp add: onData_def pushContent_eq del: drop_append)
  have len: "length (claudeOutputBuffer w) \<le> length B"
    by (simp add: B_def)
  have "suffix (claudeOutputBuffer (onData w d)) B"
    unfolding eq by (rule truncate_props(1))
  moreover have "length (claudeOutputBuffer w) \<le> length (claudeOutputBuffer (onData w d))
      \<or> (length B > 5000 \<and> length (claudeOutputBuffer (onData w d)) = 2500)"
    unfolding eq using len truncate_props(2)[of B] by (cases "length B > 5000") simp_all
  ultimately show ?thesis
    using eq unfolding B_def by blast
qed

section \<open>Matching\<close>

lemma rx_test_Lit: "rx_test (Lit l) s = includesStr s l"
  by (induction s) auto

lemma greedyRems_nonempty: "greedyRems a s \<noteq> []"
  by (cases s) auto

lemma rx_test_Lit_Star: "rx_test (Cat (Lit l) (Star a)) s = includesStr s l"
  by (induction s) (auto simp: greedyRems_nonempty)

lemma someTest_mem: "r \<in> set rs \<Longrightarrow> rx_test r s \<Longrightarrow> someTest rs s"
  by (induction rs) auto

lemma isSafeCommand_ls: "includesStr window (js ''ls'') \<Longrightarrow> isSafeCommand window"
  unfolding isSafeCommand_def
  by (rule someTest_mem[where r = "Cat (Lit (js ''ls'')) (Star (In [S]))"])
     (simp_all add: safeCommands_def rx_test_Lit_Star)

lemma hasPermissionPrompt_Yn: "includesStr window (js ''[Y/n]'') \<Longrightarrow> hasPermissionPrompt window"
  unfolding hasPermissionPrompt_def
  by (rule someTest_mem[where r = "Lit (js ''[Y/n]'')"])
     (simp_all add: promptPatterns_def rx_test_Lit)

section \<open>What the handlers leave alone\<close>

lemma handleEvent_fields [simp]:
  "written (handleEvent w e) = written w"
  "timers (handleEvent w e) = timers w"
  "prompts (handleEvent w e) = prompts w"
  "personalityPrompt (handleEvent w e) = personalityPrompt w"
  "pending (handleEvent w e) = pending w"
  by (cases e; simp add: onData_def onExit_def)+

lemma foldl_handleEvent_fields [simp]:
  "written (foldl handleEvent w es) = written w"
  "timers (foldl handleEvent w es) = timers w"
  "prompts (foldl handleEvent w es) = prompts w"
  "personalityPrompt (foldl handleEvent w es) = personalityPrompt w"
  "pending (foldl handleEvent w es) = pending w"
  by (induction es arbitrary: w; simp)+

lemma noExit_tl: "noExit evs \<Longrightarrow> noExit (tl evs)"
  by (cases evs) (auto simp: noExit_def)

lemma foldl_handleEvent_alive:
  "Exit \<notin> set es \<Longrightarrow> claudeProcess (foldl handleEvent w es) = claudeProcess w"
proof (induction es arbitrary: w)
  case Nil
  show ?case by simp
next
  case (Cons e es)
  then obtain d where "e = Data d" by (cases e) auto
  with Cons show ?case by (simp add: onData_def)
qed

lemma yield_fields [simp]:
  "written (yield w) = written w"
  "timers (yield w) = timers w"
  "prompts (yield w) = prompts w"
  "personalityPrompt (yield w) = personalityPrompt w"
  "pending (yield w) = tl (pending w)"
  by (cases "pending w"; simp add: yield_def)+

lemma yield_alive:
  "noExit (pending w) \<Longrightarrow> claudeProcess (yield w) = claudeProcess w"
  by (cases "pending w") (simp_all add: yield_def foldl_handleEvent_alive noExit_def)

lemma sleep_fields [simp]:
  "written (sleep ms w) = written w"
  "timers (sleep ms w) = timers w @ [ms]"
  "prompts (sleep ms w) = prompts w"
  "personalityPrompt (sleep ms w) = personalityPrompt w"
  "pending (sleep ms w) = tl (pending w)"
  by (simp_all add: sleep_def)

lemma sleep_alive:
  "noExit (pending w) \<Longrightarrow> claudeProcess (sleep ms w) = claudeProcess w"
  by (simp add: sleep_def yield_alive)


lemma generate_fields [simp]:
  "written (snd (generate ol p w)) = written w"
  "timers (snd (generate ol p w)) = timers w"
  "prompts (snd (generate ol p w)) = prompts w @ [p]"
  "personalityPrompt (snd (generate ol p w)) = personalityPrompt w"
  "fst (generate ol p w) = ol (length (prompts w)) p"
  by (simp_all add: generate_def)

section \<open>Writing to a live session\<close>

lemma sendToClaudeCode_alive:
  assumes "claudeProcess w" and "noExit (pending w)"
  shows "fst (sendToClaudeCode input w) = None"
    and "written (snd (sendToClaudeCode input w)) = written w @ [[3], input, [13]]"
    and "timers (snd (sendToClaudeCode input w)) = timers w @ [100, 100]"
    and "prompts (snd (sendToClaudeCode input w)) = prompts w"
    and "personalityPrompt (snd (sendToClaudeCode input w)) = personalityPrompt w"
    and "pending (snd (sendToClaudeCode input w)) = tl (tl (pending w))"
    and "claudeProcess (snd (sendToClaudeCode input w))"
    and "noExit (pending (snd (sendToClaudeCode input w)))"
proof -
  let ?w1 = "w\<lparr>written := written w @ [[3]]\<rparr>"
  let ?w2 = "sleep 100 ?w1"
  let ?w3 = "?w2\<lparr>written := written ?w2 @ [input]\<rparr>"
  let ?w4 = "sleep 100 ?w3"
  let ?w5 = "?w4\<lparr>written := written ?w4 @ [[13]]\<rparr>"
  have a2: "claudeProcess ?w2"
    using assms by (simp add: sleep_alive)
  have "noExit (pending ?w3)"
    using assms(2) by (simp add: noExit_tl)
  then have a4: "claudeProcess ?w4"
    using a2 by (simp add: sleep_alive)
  have eq: "sendToClaudeCode input w = (None, ?w5)"
    using assms(1) a2 a4 by (simp add: sendToClaudeCode_def ptyWrite_def)
  show "fst (sendToClaudeCode input w) = None"
    and "written (snd (sendToClaudeCode input w)) = written w @ [[3], input, [13]]"
    and "timers (snd (sendToClaudeCode input w)) = timers w @ [100, 100]"
    and "prompts (snd (sendToClaudeCode input w)) = prompts w"
    and "personalityPrompt (snd (sendToClaudeCode input w)) = personalityPrompt w"
    and "pending (snd (sendToClaudeCode input w)) = tl (tl (pending w))"
    and "claudeProcess (snd (sendToClaudeCode input w))"
    and "noExit (pending (snd (sendToClaudeCode input w)))"
    using a4 assms(2) by (simp_all add: eq noExit_tl)
qed


lemma sendToClaudeCode_alive_ex:
  assumes "claudeProcess w" and "noExit (pending w)"
  shows "\<exists>w'. sendToClaudeCode input w = (None, w')
           \<and> written w' = written w @ [[3], input, [13]]
           \<and> timers w' = timers w @ [100, 100]
           \<and> prompts w' = prompts w
           \<and> personalityPrompt w' = personalityPrompt w
           \<and> pending w' = tl (tl (pending w))
           \<and> claudeProcess w' \<and> noExit (pending w')"
  using sendToClaudeCode_alive[OF assms, of input]
  by (cases "sendToClaudeCode input w") simp

lemma autoApprovePrompt_alive:
  assumes "claudeProcess w" and "noExit (pending w)"
  shows "\<exists>w'. autoApprovePrompt output w = (None, w')
           \<and> written w' = written w @
               (if includesStr output ([10095] @ js '' 1. Yes'') then [[3], js ''1'', [13]]
                else if includesStr output (js ''[Y/n]'') then [[3], js ''Y'', [13]]
                else if includesStr output (js ''Do you want to proceed?'') then [[3], js ''y'', [13]]
                else [])
           \<and> prompts w' = prompts w
           \<and> personalityPrompt w' = personalityPrompt w"
proof -
  obtain w1 where w1: "sendToClaudeCode (js ''1'') w = (None, w1)"
      "written w1 = written w @ [[3], js ''1'', [13]]" "prompts w1 = prompts w"
      "personalityPrompt w1 = personalityPrompt w"
    using sendToClaudeCode_alive_ex[OF assms, of "js ''1''"] by blast
  obtain w2 where w2: "sendToClaudeCode (js ''Y'') w = (None, w2)"
      "written w2 = written w @ [[3], js ''Y'', [13]]" "prompts w2 = prompts w"
      "personalityPrompt w2 = personalityPrompt w"
    using sendToClaudeCode_alive_ex[OF assms, of "js ''Y''"] by blast
  obtain w3 where w3: "sendToClaudeCode (js ''y'') w = (None, w3)"
      "written w3 = written w @ [[3], js ''y'', [13]]" "prompts w3 = prompts w"
      "personalityPrompt w3 = personalityPrompt w"
    using sendToClaudeCode_alive_ex[OF assms, of "js ''y''"] by blast
  show ?thesis
    unfolding autoApprovePrompt_def using w1 w2 w3 by simp
qed

section \<open>One tick of the polling loop\<close>

lemma tick_safe:
  assumes "length (claudeOutputBuffer (sleep 500 w)) > lastLen"
      and "hasPermissionPrompt (latestOutput (sleep 500 w))"
      and "isSafeCommand (latestOutput (sleep 500 w))"
  shows "tick ol ui init lastLen stableCount w =
           (case autoApprovePrompt (latestOutput (sleep 500 w)) (sleep 500 w) of
              (Some e, w2) \<Rightarrow> Stop (Thrown e) w2
            | (None, w2) \<Rightarrow> Continue (length (claudeOutputBuffer w2)) 0 w2)"
  using assms by (simp add: tick_def Let_def)

lemma tick_unsafe:
  assumes "length (claudeOutputBuffer (sleep 500 w)) > lastLen"
      and "hasPermissionPrompt (latestOutput (sleep 500 w))"
      and "\<not> isSafeCommand (latestOutput (sleep 500 w))"
  shows "tick ol ui init lastLen stableCount w =
           (case handlePromptViaAni ol ui (latestOutput (sleep 500 w)) (sleep 500 w) of
              (Some r, w2) \<Rightarrow> Stop (Returned r) w2
            | (None, w2) \<Rightarrow> Stop Finished w2)"
  using assms by (simp add: tick_def Let_def)

lemma handlePromptViaAni_eq:
  "handlePromptViaAni ol ui cp w =
     ((case response (ol (length (prompts w)) (aniPrompt ui cp (personalityPrompt w))) of
         Some reply \<Rightarrow>
           if succeeded (ol (length (prompts w)) (aniPrompt ui cp (personalityPrompt w)))
           then Some (Reply reply (js ''claude+prompt+gemma'')) else None
       | None \<Rightarrow> None),
      snd (generate ol (aniPrompt ui cp (personalityPrompt w)) w))"
  unfolding handlePromptViaAni_def
  by (cases "generate ol (aniPrompt ui cp (personalityPrompt w)) w")
     (use generate_fields(5)[of ol "aniPrompt ui cp (personalityPrompt w)" w] in
      \<open>auto split: option.splits\<close>)

lemma pureGemma_written [simp]: "written (snd (pureGemma ol ui w)) = written w"
  unfolding pureGemma_def
  by (cases "generate ol (fullPrompt ui (personalityPrompt w)) w")
     (use generate_fields(1)[of ol "fullPrompt ui (personalityPrompt w)" w] in
      \<open>auto split: option.splits\<close>)

lemma afterLoop_written [simp]: "written (snd (afterLoop ol ui init w)) = written w"
proof -
  let ?p = "simplePrompt ui (claudeResponseOf init w) (personalityPrompt w)"
  obtain r w1 where g: "generate ol ?p w = (r, w1)"
    by (cases "generate ol ?p w")
  have "written w1 = written w"
    using generate_fields(1)[of ol ?p w] g by simp
  then show ?thesis
    unfolding afterLoop_def using g by (auto split: option.splits)
qed

text \<open>
  Claim C3, as amended. When the window at a tick holds a confirmation prompt and matches
  no pattern of \<open>isSafeCommand\<close>, the tick leaves the loop; nothing has been written to
  the session, and nothing is written by what follows the loop either. One prompt has been
  sent to the secondary model: the clarification request made of the user's input, the
  window and the personality text. If the answer has a non-empty response and no error,
  that response is returned with the tag \<open>claude+prompt+gemma\<close>; if not, the loop is left
  by \<open>break\<close> and the request goes on to what follows the loop.
\<close>

theorem unsafe_prompt_escalation:
  assumes "length (claudeOutputBuffer (sleep 500 w)) > lastLen"
      and "hasPermissionPrompt (latestOutput (sleep 500 w))"
      and "\<not> isSafeCommand (latestOutput (sleep 500 w))"
  shows "\<exists>w2. tick ol ui init lastLen stableCount w =
             Stop (case response (ol (length (prompts w))
                            (aniPrompt ui (latestOutput (sleep 500 w)) (personalityPrompt w))) of
                     Some reply \<Rightarrow>
                       if succeeded (ol (length (prompts w))
                            (aniPrompt ui (latestOutput (sleep 500 w)) (personalityPrompt w)))
                       then Returned (Reply reply (js ''claude+prompt+gemma''))
                       else Finished
                   | None \<Rightarrow> Finished) w2
           \<and> written w2 = written w
           \<and> prompts w2 = prompts w @ [aniPrompt ui (latestOutput (sleep 500 w)) (personalityPrompt w)]
           \<and> written (snd (afterLoop ol ui init w2)) = written w"
  unfolding tick_unsafe[OF assms] handlePromptViaAni_eq
  by (auto split: option.splits)

section \<open>Classifying a confirmation prompt\<close>

text \<open>Facts for evaluating the model on concrete inputs.\<close>

lemmas regex_eval = js_def isWhiteSpace_def isLineTerminator_def isWordChar_def isDigit_def
lemmas prompt_eval = hasPermissionPrompt_def promptPatterns_def isSafeCommand_def safeCommands_def
lemmas state_eval = idle_def sleep_def yield_def latestOutput_def sliceLast_def
lemmas approve_eval = autoApprovePrompt_def sendToClaudeCode_def ptyWrite_def

text \<open>
  Claim C1, as amended. The source never looks for a mutating verb. When the window at a
  tick holds a confirmation prompt and a mutating verb and matches no pattern of
  \<open>isSafeCommand\<close>, the tick leaves the loop by \<open>return\<close> or \<open>break\<close>, not by an exception,
  and nothing has been written to the session.
\<close>

theorem mutating_verb_without_safe_pattern:
  assumes "spec_hasMutatingVerb (latestOutput (sleep 500 w))"
      and "length (claudeOutputBuffer (sleep 500 w)) > lastLen"
      and "hasPermissionPrompt (latestOutput (sleep 500 w))"
      and "\<not> isSafeCommand (latestOutput (sleep 500 w))"
  shows "\<exists>e w2. tick ol ui init lastLen stableCount w = Stop e w2
           \<and> e \<noteq> Thrown NotRunning \<and> e \<noteq> Thrown WriteOnNull
           \<and> written w2 = written w"
  unfolding tick_unsafe[OF assms(2-4)] handlePromptViaAni_eq
  by (auto split: option.splits)

theorem mutating_verb_without_safe_pattern_witness:
  "\<exists>e w2. tick (replies (js ''ok?'')) (js ''ls'') 0 0 0 (idle\<lparr>claudeOutputBuffer := [js ''delete [Y/n]'']\<rparr>) = Stop e w2
       \<and> e \<noteq> Thrown NotRunning \<and> e \<noteq> Thrown WriteOnNull
       \<and> written w2 = written (idle\<lparr>claudeOutputBuffer := [js ''delete [Y/n]'']\<rparr>)"
proof -
  let ?w = "idle\<lparr>claudeOutputBuffer := [js ''delete [Y/n]'']\<rparr>"
  have win: "latestOutput (sleep 500 ?w) = js ''delete [Y/n]''"
    by (simp add: state_eval)
  have 1: "spec_hasMutatingVerb (latestOutput (sleep 500 ?w))"
    unfolding win by (simp add: spec_hasMutatingVerb_def spec_mutatingVerbs_def js_def)
  have 2: "length (claudeOutputBuffer (sleep 500 ?w)) > 0"
    by (simp add: state_eval)
  have 3: "hasPermissionPrompt (latestOutput (sleep 500 ?w))"
    unfolding win by (simp add: prompt_eval regex_eval)
  have 4: "\<not> isSafeCommand (latestOutput (sleep 500 ?w))"
    unfolding win by (simp add: prompt_eval regex_eval)
  show ?thesis
    by (rule mutating_verb_without_safe_pattern[OF 1 2 3 4])
qed

text \<open>
  The claim as stated fails: the window \<open>delete tools [Y/n]\<close> holds the mutating verb
  \<open>delete\<close>, and \<open>tools\<close> matches \<open>/ls\s*/\<close>, so the prompt is approved with \<open>Y\<close>.
\<close>

theorem mutating_verb_auto_approved:
  "latestOutput (sleep 500 (idle\<lparr>claudeOutputBuffer := [js ''delete tools [Y/n]'']\<rparr>)) = js ''delete tools [Y/n]''
   \<and> spec_hasMutatingVerb (js ''delete tools [Y/n]'')
   \<and> hasPermissionPrompt (js ''delete tools [Y/n]'')
   \<and> isSafeCommand (js ''delete tools [Y/n]'')
   \<and> tick (replies (js ''ok?'')) (js ''ls'') 0 0 0 (idle\<lparr>claudeOutputBuffer := [js ''delete tools [Y/n]'']\<rparr>)
       = Continue 1 0 (idle\<lparr>claudeOutputBuffer := [js ''delete tools [Y/n]''],
                             written := [[3], js ''Y'', [13]], timers := [500, 100, 100, 1000]\<rparr>)"
proof -
  let ?w = "idle\<lparr>claudeOutputBuffer := [js ''delete tools [Y/n]'']\<rparr>"
  have win: "latestOutput (sleep 500 ?w) = js ''delete tools [Y/n]''"
    by (simp add: state_eval)
  have 1: "spec_hasMutatingVerb (js ''delete tools [Y/n]'')"
    by (simp add: spec_hasMutatingVerb_def spec_mutatingVerbs_def js_def)
  have 2: "length (claudeOutputBuffer (sleep 500 ?w)) > 0"
    by (simp add: state_eval)
  have i: "includesStr (js ''delete tools [Y/n]'') (js ''[Y/n]'')" "includesStr (js ''delete tools [Y/n]'') (js ''ls'')"
    by (simp_all add: js_def)
  have 3: "hasPermissionPrompt (js ''delete tools [Y/n]'')"
    by (rule hasPermissionPrompt_Yn[OF i(1)])
  have 4: "isSafeCommand (js ''delete tools [Y/n]'')"
    by (rule isSafeCommand_ls[OF i(2)])
  have "tick (replies (js ''ok?'')) (js ''ls'') 0 0 0 ?w
       = Continue 1 0 (idle\<lparr>claudeOutputBuffer := [js ''delete tools [Y/n]''],
                             written := [[3], js ''Y'', [13]], timers := [500, 100, 100, 1000]\<rparr>)"
    using 2 3 4 unfolding tick_def Let_def win
    by (simp add: state_eval approve_eval js_def)
  with win 1 3 4 show ?thesis by simp
qed

lemma tick_safe_alive:
  assumes "length (claudeOutputBuffer (sleep 500 w)) > lastLen"
      and "hasPermissionPrompt (latestOutput (sleep 500 w))"
      and "isSafeCommand (latestOutput (sleep 500 w))"
      and "claudeProcess w" and "noExit (pending w)"
  shows "\<exists>w2. tick ol ui init lastLen stableCount w = Continue (length (claudeOutputBuffer w2)) 0 w2
           \<and> written w2 = written w @
               (if includesStr (latestOutput (sleep 500 w)) ([10095] @ js '' 1. Yes'')
                  then [[3], js ''1'', [13]]
                else if includesStr (latestOutput (sleep 500 w)) (js ''[Y/n]'')
                  then [[3], js ''Y'', [13]]
                else if includesStr (latestOutput (sleep 500 w)) (js ''Do you want to proceed?'')
                  then [[3], js ''y'', [13]]
                else [])
           \<and> prompts w2 = prompts w"
proof -
  have a: "claudeProcess (sleep 500 w)"
    using assms(4,5) by (simp add: sleep_alive)
  have b: "noExit (pending (sleep 500 w))"
    using assms(5) by (simp add: noExit_tl)
  obtain w2 where w2: "autoApprovePrompt (latestOutput (sleep 500 w)) (sleep 500 w) = (None, w2)"
    "written w2 = written (sleep 500 w) @
               (if includesStr (latestOutput (sleep 500 w)) ([10095] @ js '' 1. Yes'')
                  then [[3], js ''1'', [13]]
                else if includesStr (latestOutput (sleep 500 w)) (js ''[Y/n]'')
                  then [[3], js ''Y'', [13]]
                else if includesStr (latestOutput (sleep 500 w)) (js ''Do you want to proceed?'')
                  then [[3], js ''y'', [13]]
                else [])"
    "prompts w2 = prompts (sleep 500 w)"
    using autoApprovePrompt_alive[OF a b, of "latestOutput (sleep 500 w)"] by blast
  show ?thesis
    unfolding tick_safe[OF assms(1-3)] using w2 by simp
qed

text \<open>
  Claim C2, as amended. A window that contains \<open>[Y/n]\<close> is a confirmation prompt. With no
  mutating verb in it, it is approved when it also matches a pattern of \<open>isSafeCommand\<close>:
  in a live session the tick goes on polling, nothing is sent to the secondary model, and
  what is written is Ctrl-C, the token and a carriage return, the token being \<open>1\<close> when
  the window also includes the numbered menu and \<open>Y\<close> otherwise.
\<close>

theorem yn_prompt_needs_safe_pattern:
  assumes "includesStr (latestOutput (sleep 500 w)) (js ''[Y/n]'')"
      and "\<not> spec_hasMutatingVerb (latestOutput (sleep 500 w))"
      and "isSafeCommand (latestOutput (sleep 500 w))"
      and "length (claudeOutputBuffer (sleep 500 w)) > lastLen"
      and "claudeProcess w" and "noExit (pending w)"
  shows "hasPermissionPrompt (latestOutput (sleep 500 w))
         \<and> (\<exists>w2. tick ol ui init lastLen stableCount w = Continue (length (claudeOutputBuffer w2)) 0 w2
                \<and> prompts w2 = prompts w
                \<and> written w2 = written w @
                    (if includesStr (latestOutput (sleep 500 w)) ([10095] @ js '' 1. Yes'')
                     then [[3], js ''1'', [13]] else [[3], js ''Y'', [13]]))"
proof -
  have p: "hasPermissionPrompt (latestOutput (sleep 500 w))"
    by (rule hasPermissionPrompt_Yn[OF assms(1)])
  show ?thesis
    using tick_safe_alive[OF assms(4) p assms(3,5,6), of ol ui init stableCount] p assms(1)
    by auto
qed

theorem yn_prompt_needs_safe_pattern_witness:
  "hasPermissionPrompt (latestOutput (sleep 500 (idle\<lparr>claudeOutputBuffer := [js ''ls [Y/n]'']\<rparr>)))
   \<and> (\<exists>w2. tick (replies (js ''ok?'')) (js ''ls'') 0 0 0 (idle\<lparr>claudeOutputBuffer := [js ''ls [Y/n]'']\<rparr>)
              = Continue (length (claudeOutputBuffer w2)) 0 w2
          \<and> prompts w2 = []
          \<and> written w2 = [[3], js ''Y'', [13]])"
proof -
  let ?w = "idle\<lparr>claudeOutputBuffer := [js ''ls [Y/n]'']\<rparr>"
  have win: "latestOutput (sleep 500 ?w) = js ''ls [Y/n]''"
    by (simp add: state_eval)
  have 1: "includesStr (latestOutput (sleep 500 ?w)) (js ''[Y/n]'')"
    unfolding win by (simp add: js_def)
  have 2: "\<not> spec_hasMutatingVerb (latestOutput (sleep 500 ?w))"
    unfolding win by (simp add: spec_hasMutatingVerb_def spec_mutatingVerbs_def js_def)
  have 3: "isSafeCommand (latestOutput (sleep 500 ?w))"
    unfolding win by (rule isSafeCommand_ls) (simp add: js_def)
  have 4: "length (claudeOutputBuffer (sleep 500 ?w)) > 0"
    by (simp add: state_eval)
  have 5: "claudeProcess ?w" "noExit (pending ?w)"
    by (simp_all add: idle_def noExit_def)
  have 6: "\<not> includesStr (latestOutput (sleep 500 ?w)) ([10095] @ js '' 1. Yes'')"
    unfolding win by (simp add: js_def)
  have 7: "prompts ?w = []" "written ?w = []"
    by (simp_all add: idle_def)
  show ?thesis
    using yn_prompt_needs_safe_pattern[OF 1 2 3 4 5, of "replies (js ''ok?'')" "js ''ls''" 0 0] 6 7
    by simp
qed

text \<open>
  The claim as stated fails: the window \<open>[Y/n]\<close> has no mutating verb and matches no
  pattern of \<open>isSafeCommand\<close>; the prompt goes to the secondary model and its reply is
  returned.
\<close>

theorem yn_prompt_alone_escalated:
  "latestOutput (sleep 500 (idle\<lparr>claudeOutputBuffer := [js ''[Y/n]'']\<rparr>)) = js ''[Y/n]''
   \<and> includesStr (js ''[Y/n]'') (js ''[Y/n]'')
   \<and> \<not> spec_hasMutatingVerb (js ''[Y/n]'')
   \<and> hasPermissionPrompt (js ''[Y/n]'')
   \<and> \<not> isSafeCommand (js ''[Y/n]'')
   \<and> tick (replies (js ''ok?'')) (js ''ls'') 0 0 0 (idle\<lparr>claudeOutputBuffer := [js ''[Y/n]'']\<rparr>)
       = Stop (Returned (Reply (js ''ok?'') (js ''claude+prompt+gemma'')))
           (idle\<lparr>claudeOutputBuffer := [js ''[Y/n]''], timers := [500],
                  prompts := [aniPrompt (js ''ls'') (js ''[Y/n]'') []]\<rparr>)"
proof -
  let ?w = "idle\<lparr>claudeOutputBuffer := [js ''[Y/n]'']\<rparr>"
  have win: "latestOutput (sleep 500 ?w) = js ''[Y/n]''"
    by (simp add: state_eval)
  have 1: "includesStr (js ''[Y/n]'') (js ''[Y/n]'')"
    by (simp add: js_def)
  have 2: "\<not> spec_hasMutatingVerb (js ''[Y/n]'')"
    by (simp add: spec_hasMutatingVerb_def spec_mutatingVerbs_def js_def)
  have 3: "hasPermissionPrompt (js ''[Y/n]'')"
    by (rule hasPermissionPrompt_Yn[OF 1])
  have 4: "\<not> isSafeCommand (js ''[Y/n]'')"
    by (simp add: prompt_eval regex_eval)
  have 5: "length (claudeOutputBuffer (sleep 500 ?w)) > 0"
    by (simp add: state_eval)
  have "tick (replies (js ''ok?'')) (js ''ls'') 0 0 0 ?w
       = Stop (Returned (Reply (js ''ok?'') (js ''claude+prompt+gemma'')))
           (idle\<lparr>claudeOutputBuffer := [js ''[Y/n]''], timers := [500],
                  prompts := [aniPrompt (js ''ls'') (js ''[Y/n]'') []]\<rparr>)"
    using 3 4 5 unfolding tick_def Let_def win
    by (simp add: state_eval handlePromptViaAni_def generate_def replies_def succeeded_def js_def)
  with win 1 2 3 4 show ?thesis by simp
qed

section \<open>Approving a prompt\<close>

text \<open>
  Claim C4, as amended. When a prompt is approved in a live session, the tick goes on
  polling and what it has written is, in this order, Ctrl-C (U+0003), the token and a
  carriage return. The token is \<open>1\<close> when the window includes the numbered menu with single
  spaces, else \<open>Y\<close> when it includes \<open>[Y/n]\<close>, else \<open>y\<close> when it includes
  \<open>Do you want to proceed?\<close>. When the window includes none of the three, nothing is
  written.
\<close>

theorem safe_prompt_acknowledgement:
  assumes "length (claudeOutputBuffer (sleep 500 w)) > lastLen"
      and "hasPermissionPrompt (latestOutput (sleep 500 w))"
      and "isSafeCommand (latestOutput (sleep 500 w))"
      and "claudeProcess w" and "noExit (pending w)"
  shows "\<exists>w2. tick ol ui init lastLen stableCount w = Continue (length (claudeOutputBuffer w2)) 0 w2
           \<and> written w2 = written w @
               (if includesStr (latestOutput (sleep 500 w)) ([10095] @ js '' 1. Yes'')
                  then [[3], js ''1'', [13]]
                else if includesStr (latestOutput (sleep 500 w)) (js ''[Y/n]'')
                  then [[3], js ''Y'', [13]]
                else if includesStr (latestOutput (sleep 500 w)) (js ''Do you want to proceed?'')
                  then [[3], js ''y'', [13]]
                else [])"
  using tick_safe_alive[OF assms, of ol ui init stableCount] by blast

theorem safe_prompt_acknowledgement_witness:
  "\<exists>w2. tick (replies (js ''ok?'')) (js ''pwd'') 0 0 0
            (idle\<lparr>claudeOutputBuffer := [js ''Do you want to proceed?'', js ''pwd'']\<rparr>)
          = Continue (length (claudeOutputBuffer w2)) 0 w2
       \<and> written w2 = [[3], js ''y'', [13]]"
proof -
  let ?w = "idle\<lparr>claudeOutputBuffer := [js ''Do you want to proceed?'', js ''pwd'']\<rparr>"
  have win: "latestOutput (sleep 500 ?w) = js ''Do you want to proceed?'' @ [10] @ js ''pwd''"
    by (simp add: state_eval)
  have i: "includesStr (js ''Do you want to proceed?'' @ [10] @ js ''pwd'') (js ''Do you want to proceed?'')"
    by (simp add: js_def)
  have 1: "length (claudeOutputBuffer (sleep 500 ?w)) > 0"
    by (simp add: state_eval)
  have 2: "hasPermissionPrompt (latestOutput (sleep 500 ?w))"
    unfolding win hasPermissionPrompt_def
    by (rule someTest_mem[where r = "Lit (js ''Do you want to proceed?'')"],
        simp add: promptPatterns_def, simp only: rx_test_Lit i)
  have 3: "isSafeCommand (latestOutput (sleep 500 ?w))"
    unfolding win isSafeCommand_def
    by (rule someTest_mem[where r = "Lit (js ''pwd'')"],
        simp add: safeCommands_def, simp add: rx_test_Lit js_def)
  have 4: "claudeProcess ?w" "noExit (pending ?w)"
    by (simp_all add: idle_def noExit_def)
  have 5: "\<not> includesStr (latestOutput (sleep 500 ?w)) ([10095] @ js '' 1. Yes'')"
    "\<not> includesStr (latestOutput (sleep 500 ?w)) (js ''[Y/n]'')"
    unfolding win by (simp_all add: js_def)
  have 6: "written ?w = []"
    by (simp add: idle_def)
  show ?thesis
    using safe_prompt_acknowledgement[OF 1 2 3 4, of "replies (js ''ok?'')" "js ''pwd''" 0 0]
      5 6 i unfolding win by simp
qed

text \<open>
  The claim as stated fails: approving \<open>pwd [Y/n]\<close> writes three strings, not the token
  alone.
\<close>

theorem acknowledgement_is_three_writes:
  "latestOutput (sleep 500 (idle\<lparr>claudeOutputBuffer := [js ''pwd [Y/n]'']\<rparr>)) = js ''pwd [Y/n]''
   \<and> hasPermissionPrompt (js ''pwd [Y/n]'')
   \<and> isSafeCommand (js ''pwd [Y/n]'')
   \<and> tick (replies (js ''ok?'')) (js ''pwd'') 0 0 0 (idle\<lparr>claudeOutputBuffer := [js ''pwd [Y/n]'']\<rparr>)
       = Continue 1 0 (idle\<lparr>claudeOutputBuffer := [js ''pwd [Y/n]''],
                             written := [[3], js ''Y'', [13]], timers := [500, 100, 100, 1000]\<rparr>)
   \<and> [[3], js ''Y'', [13]] \<noteq> [js ''Y'']"
proof -
  let ?w = "idle\<lparr>claudeOutputBuffer := [js ''pwd [Y/n]'']\<rparr>"
  have win: "latestOutput (sleep 500 ?w) = js ''pwd [Y/n]''"
    by (simp add: state_eval)
  have 2: "length (claudeOutputBuffer (sleep 500 ?w)) > 0"
    by (simp add: state_eval)
  have 3: "hasPermissionPrompt (js ''pwd [Y/n]'')"
    by (rule hasPermissionPrompt_Yn) (simp add: js_def)
  have 4: "isSafeCommand (js ''pwd [Y/n]'')"
    unfolding isSafeCommand_def
    by (rule someTest_mem[where r = "Lit (js ''pwd'')"],
        simp add: safeCommands_def, simp add: rx_test_Lit js_def)
  have "tick (replies (js ''ok?'')) (js ''pwd'') 0 0 0 ?w
       = Continue 1 0 (idle\<lparr>claudeOutputBuffer := [js ''pwd [Y/n]''],
                             written := [[3], js ''Y'', [13]], timers := [500, 100, 100, 1000]\<rparr>)"
    using 2 3 4 unfolding tick_def Let_def win
    by (simp add: state_eval approve_eval js_def)
  with win 3 4 show ?thesis by simp
qed

text \<open>
  Claim C10, as amended. A window that contains \<open>ls\<close> anywhere matches \<open>/ls\s*/\<close>, so
  \<open>isSafeCommand\<close> holds, and a tick that finds a confirmation prompt in such a window
  approves it.
\<close>

theorem ls_substring_auto_approved:
  assumes "includesStr window (js ''ls'')"
  shows "isSafeCommand window
         \<and> (\<forall>ol ui init lastLen stableCount w.
               latestOutput (sleep 500 w) = window
               \<and> length (claudeOutputBuffer (sleep 500 w)) > lastLen
               \<and> hasPermissionPrompt window
               \<longrightarrow> tick ol ui init lastLen stableCount w =
                     (case autoApprovePrompt window (sleep 500 w) of
                        (Some e, w2) \<Rightarrow> Stop (Thrown e) w2
                      | (None, w2) \<Rightarrow> Continue (length (claudeOutputBuffer w2)) 0 w2))"
  using isSafeCommand_ls[OF assms] tick_safe by auto

theorem ls_substring_auto_approved_witness:
  "isSafeCommand (js ''also [Y/n]'')
   \<and> tick (replies (js ''ok?'')) (js ''ls'') 0 0 0 (idle\<lparr>claudeOutputBuffer := [js ''also [Y/n]'']\<rparr>)
       = Continue 1 0 (idle\<lparr>claudeOutputBuffer := [js ''also [Y/n]''],
                             written := [[3], js ''Y'', [13]], timers := [500, 100, 100, 1000]\<rparr>)"
proof -
  let ?w = "idle\<lparr>claudeOutputBuffer := [js ''also [Y/n]'']\<rparr>"
  have h: "includesStr (js ''also [Y/n]'') (js ''ls'')"
    by (simp add: js_def)
  note t = ls_substring_auto_approved[OF h]
  have win: "latestOutput (sleep 500 ?w) = js ''also [Y/n]''"
    by (simp add: state_eval)
  have 2: "length (claudeOutputBuffer (sleep 500 ?w)) > 0"
    by (simp add: state_eval)
  have 3: "hasPermissionPrompt (js ''also [Y/n]'')"
    by (rule hasPermissionPrompt_Yn) (simp add: js_def)
  have "tick (replies (js ''ok?'')) (js ''ls'') 0 0 0 ?w =
          (case autoApprovePrompt (js ''also [Y/n]'') (sleep 500 ?w) of
             (Some e, w2) \<Rightarrow> Stop (Thrown e) w2
           | (None, w2) \<Rightarrow> Continue (length (claudeOutputBuffer w2)) 0 w2)"
    using t win 2 3 by blast
  also have "\<dots> = Continue 1 0 (idle\<lparr>claudeOutputBuffer := [js ''also [Y/n]''],
                             written := [[3], js ''Y'', [13]], timers := [500, 100, 100, 1000]\<rparr>)"
    by (simp add: state_eval approve_eval js_def)
  finally show ?thesis
    using t by simp
qed

text \<open>
  The claim as stated names \<open>files\<close> among the words that contain \<open>ls\<close>. It does not, and
  a prompt whose window is \<open>files [Y/n]\<close> is not approved: it goes to the secondary model.
\<close>

theorem files_is_not_safe:
  "\<not> includesStr (js ''files'') (js ''ls'')
   \<and> latestOutput (sleep 500 (idle\<lparr>claudeOutputBuffer := [js ''files [Y/n]'']\<rparr>)) = js ''files [Y/n]''
   \<and> hasPermissionPrompt (js ''files [Y/n]'')
   \<and> \<not> isSafeCommand (js ''files [Y/n]'')
   \<and> tick (replies (js ''ok?'')) (js ''ls'') 0 0 0 (idle\<lparr>claudeOutputBuffer := [js ''files [Y/n]'']\<rparr>)
       = Stop (Returned (Reply (js ''ok?'') (js ''claude+prompt+gemma'')))
           (idle\<lparr>claudeOutputBuffer := [js ''files [Y/n]''], timers := [500],
                  prompts := [aniPrompt (js ''ls'') (js ''files [Y/n]'') []]\<rparr>)"
proof -
  let ?w = "idle\<lparr>claudeOutputBuffer := [js ''files [Y/n]'']\<rparr>"
  have win: "latestOutput (sleep 500 ?w) = js ''files [Y/n]''"
    by (simp add: state_eval)
  have 1: "\<not> includesStr (js ''files'') (js ''ls'')"
    by (simp add: js_def)
  have 3: "hasPermissionPrompt (js ''files [Y/n]'')"
    by (rule hasPermissionPrompt_Yn) (simp add: js_def)
  have 4: "\<not> isSafeCommand (js ''files [Y/n]'')"
    by (simp add: prompt_eval regex_eval)
  have 5: "length (claudeOutputBuffer (sleep 500 ?w)) > 0"
    by (simp add: state_eval)
  have "tick (replies (js ''ok?'')) (js ''ls'') 0 0 0 ?w
       = Stop (Returned (Reply (js ''ok?'') (js ''claude+prompt+gemma'')))
           (idle\<lparr>claudeOutputBuffer := [js ''files [Y/n]''], timers := [500],
                  prompts := [aniPrompt (js ''ls'') (js ''files [Y/n]'') []]\<rparr>)"
    using 3 4 5 unfolding tick_def Let_def win
    by (simp add: state_eval handlePromptViaAni_def generate_def replies_def succeeded_def js_def)
  with win 1 3 4 show ?thesis by simp
qed

section \<open>Escalation\<close>

lemma pollLoop_numeral:
  "pollLoop ol ui init (numeral k) lastLen stableCount w =
     (case tick ol ui init lastLen stableCount w of
        Continue l s w1 \<Rightarrow> pollLoop ol ui init (pred_numeral k) l s w1
      | Stop e w1 \<Rightarrow> (e, w1))"
  by (simp add: numeral_eq_Suc)

lemmas classify_eval = onData_def pushContent_def allLines_def cleanData_def rx_removeAll_def
  colourCode_def escapeSequence_def trim_def trimStart_def trimEnd_def rx_matchStart_def
  animationPattern_def animationGlyphs_def noisePattern_def cleanLine_def rx_removeStart_def
  boxChars_def timingPattern_def

lemmas request_eval = processRequest_def loadPersonalityPrompt_def isTechnical_def
  technicalKeywords_def enhancedInput_def maxWait_def pollLoop_numeral tick_def
  afterLoop_def claudeResponseOf_def extractKeyContent_def isKeyLine_def rx_matchAll_def
  sentencePattern_def isMeaningfulSentence_def pureGemma_def generate_def
  handlePromptViaAni_def succeeded_def

theorem unsafe_prompt_escalation_witness:
  "\<exists>w2. tick (replies (js ''ok?'')) (js ''ls'') 0 0 0 (idle\<lparr>claudeOutputBuffer := [js ''rm [Y/n]'']\<rparr>)
          = Stop (Returned (Reply (js ''ok?'') (js ''claude+prompt+gemma''))) w2
       \<and> written w2 = []
       \<and> prompts w2 = [aniPrompt (js ''ls'') (js ''rm [Y/n]'') []]
       \<and> written (snd (afterLoop (replies (js ''ok?'')) (js ''ls'') 0 w2)) = []"
proof -
  let ?w = "idle\<lparr>claudeOutputBuffer := [js ''rm [Y/n]'']\<rparr>"
  have win: "latestOutput (sleep 500 ?w) = js ''rm [Y/n]''"
    by (simp add: state_eval)
  have 1: "length (claudeOutputBuffer (sleep 500 ?w)) > 0"
    by (simp add: state_eval)
  have 2: "hasPermissionPrompt (latestOutput (sleep 500 ?w))"
    unfolding win by (rule hasPermissionPrompt_Yn) (simp add: js_def)
  have 3: "\<not> isSafeCommand (latestOutput (sleep 500 ?w))"
    unfolding win by (simp add: prompt_eval regex_eval)
  have 4: "written ?w = []" "prompts ?w = []" "personalityPrompt ?w = []"
    by (simp_all add: idle_def)
  have 5: "response (replies (js ''ok?'') 0 p) = Some (js ''ok?'')"
    "succeeded (replies (js ''ok?'') 0 p)" for p
    by (simp_all add: replies_def succeeded_def js_def)
  show ?thesis
    using unsafe_prompt_escalation[OF 1 2 3, of "replies (js ''ok?'')" "js ''ls''" 0 0]
    unfolding win 4 by (simp add: 5)
qed

text \<open>
  The claim as stated fails when the secondary model does not answer the clarification
  with a response and no error: here the window \<open>[Y/n]\<close> is an unsafe prompt, the first
  call of the secondary model reports an error, and the request ends with the answer of
  the direct path, tagged \<open>gemma\<close>.
\<close>

theorem failed_escalation_falls_through:
  "hasPermissionPrompt (js ''[Y/n]'') \<and> \<not> isSafeCommand (js ''[Y/n]'') \<and>
   processRequest (failsFirst (js ''down'') (js ''hi'')) None (js ''ls'')
     (idle\<lparr>pending := [[], [], [Data (js ''[Y/n]'')]]\<rparr>)
   = (Reply (js ''hi'') (js ''gemma''),
      idle\<lparr>personalityPrompt := js ''You are a helpful AI assistant.'',
           claudeOutputBuffer := [js ''[Y/n]''],
           written := [[3], js ''ls'', [13]],
           timers := [100, 100, 500],
           prompts := [aniPrompt (js ''ls'') (js ''[Y/n]'') (js ''You are a helpful AI assistant.''),
                       fullPrompt (js ''ls'') (js ''You are a helpful AI assistant.'')]\<rparr>)"
proof -
  have "hasPermissionPrompt (js ''[Y/n]'')"
    by (rule hasPermissionPrompt_Yn) (simp add: js_def)
  moreover have "\<not> isSafeCommand (js ''[Y/n]'')"
    by (simp add: prompt_eval regex_eval)
  moreover have "processRequest (failsFirst (js ''down'') (js ''hi'')) None (js ''ls'')
     (idle\<lparr>pending := [[], [], [Data (js ''[Y/n]'')]]\<rparr>)
   = (Reply (js ''hi'') (js ''gemma''),
      idle\<lparr>personalityPrompt := js ''You are a helpful AI assistant.'',
           claudeOutputBuffer := [js ''[Y/n]''],
           written := [[3], js ''ls'', [13]],
           timers := [100, 100, 500],
           prompts := [aniPrompt (js ''ls'') (js ''[Y/n]'') (js ''You are a helpful AI assistant.''),
                       fullPrompt (js ''ls'') (js ''You are a helpful AI assistant.'')]\<rparr>)"
    by (simp add: request_eval state_eval approve_eval classify_eval prompt_eval regex_eval failsFirst_def)
  ultimately show ?thesis by simp
qed

section \<open>An error of the secondary model on the assisted path\<close>

lemma pureGemma_eq:
  "pureGemma ol ui w =
     ((case error (ol (length (prompts w)) (fullPrompt ui (personalityPrompt w))) of
         Some e \<Rightarrow>
           if e \<noteq> [] then Failure e
           else Reply (case response (ol (length (prompts w)) (fullPrompt ui (personalityPrompt w))) of
                         Some r \<Rightarrow> if r \<noteq> [] then r else js ''No response generated.''
                       | None \<Rightarrow> js ''No response generated.'') (js ''gemma'')
       | None \<Rightarrow>
           Reply (case response (ol (length (prompts w)) (fullPrompt ui (personalityPrompt w))) of
                    Some r \<Rightarrow> if r \<noteq> [] then r else js ''No response generated.''
                  | None \<Rightarrow> js ''No response generated.'') (js ''gemma'')),
      snd (generate ol (fullPrompt ui (personalityPrompt w)) w))"
  unfolding pureGemma_def
  by (cases "generate ol (fullPrompt ui (personalityPrompt w)) w")
     (use generate_fields(5)[of ol "fullPrompt ui (personalityPrompt w)" w] in
      \<open>auto split: option.splits\<close>)

text \<open>
  Claim C6, as amended. On the assisted path (the buffer has grown since the request and
  the key content is longer than 10 code units), when the secondary model does not answer
  the assisted prompt with a response and no error, nothing is returned yet: the request
  goes on to the direct path, which sends the direct prompt as a second call. The outcome
  is that of the second call, a failure only if that call reports an error. The two
  prompts are all that is sent.
\<close>

theorem assisted_error_falls_through:
  assumes "length (claudeOutputBuffer w) > init"
      and "length (claudeResponseOf init w) > 10"
      and "\<not> succeeded (ol (length (prompts w))
                (simplePrompt ui (claudeResponseOf init w) (personalityPrompt w)))"
  shows "afterLoop ol ui init w =
           pureGemma ol ui (snd (generate ol (simplePrompt ui (claudeResponseOf init w)
                                                (personalityPrompt w)) w))
         \<and> prompts (snd (afterLoop ol ui init w)) =
             prompts w @ [simplePrompt ui (claudeResponseOf init w) (personalityPrompt w),
                          fullPrompt ui (personalityPrompt w)]
         \<and> fst (afterLoop ol ui init w) =
             (case error (ol (Suc (length (prompts w))) (fullPrompt ui (personalityPrompt w))) of
                Some e \<Rightarrow>
                  if e \<noteq> [] then Failure e
                  else Reply (case response (ol (Suc (length (prompts w)))
                                       (fullPrompt ui (personalityPrompt w))) of
                                Some r \<Rightarrow> if r \<noteq> [] then r else js ''No response generated.''
                              | None \<Rightarrow> js ''No response generated.'') (js ''gemma'')
              | None \<Rightarrow>
                  Reply (case response (ol (Suc (length (prompts w)))
                                  (fullPrompt ui (personalityPrompt w))) of
                           Some r \<Rightarrow> if r \<noteq> [] then r else js ''No response generated.''
                         | None \<Rightarrow> js ''No response generated.'') (js ''gemma''))"
proof -
  let ?p = "simplePrompt ui (claudeResponseOf init w) (personalityPrompt w)"
  obtain r w1 where g: "generate ol ?p w = (r, w1)"
    by (cases "generate ol ?p w")
  have r: "r = ol (length (prompts w)) ?p"
    using generate_fields(5)[of ol ?p w] g by simp
  have w1: "prompts w1 = prompts w @ [?p]" "personalityPrompt w1 = personalityPrompt w"
    using generate_fields(3,4)[of ol ?p w] g by simp_all
  have eq: "afterLoop ol ui init w = pureGemma ol ui w1"
    unfolding afterLoop_def using assms g r by (auto split: option.splits)
  show ?thesis
    unfolding eq g snd_conv pureGemma_eq fst_conv generate_fields w1 length_append_singleton by simp
qed

theorem assisted_error_falls_through_witness:
  "afterLoop (failsFirst (js ''down'') (js ''hi'')) (js ''ls'') 0
       (idle\<lparr>claudeOutputBuffer := [js ''- a.js is here'']\<rparr>)
     = pureGemma (failsFirst (js ''down'') (js ''hi'')) (js ''ls'')
         (snd (generate (failsFirst (js ''down'') (js ''hi''))
                 (simplePrompt (js ''ls'') (js ''- a.js is here'') [])
                 (idle\<lparr>claudeOutputBuffer := [js ''- a.js is here'']\<rparr>)))
   \<and> prompts (snd (afterLoop (failsFirst (js ''down'') (js ''hi'')) (js ''ls'') 0
                      (idle\<lparr>claudeOutputBuffer := [js ''- a.js is here'']\<rparr>)))
       = [simplePrompt (js ''ls'') (js ''- a.js is here'') [], fullPrompt (js ''ls'') []]
   \<and> fst (afterLoop (failsFirst (js ''down'') (js ''hi'')) (js ''ls'') 0
                      (idle\<lparr>claudeOutputBuffer := [js ''- a.js is here'']\<rparr>))
       = Reply (js ''hi'') (js ''gemma'')"
proof -
  let ?w = "idle\<lparr>claudeOutputBuffer := [js ''- a.js is here'']\<rparr>"
  have k: "claudeResponseOf 0 ?w = js ''- a.js is here''"
    by (simp add: claudeResponseOf_def idle_def extractKeyContent_def isKeyLine_def
        trim_def trimStart_def trimEnd_def isWhiteSpace_def js_def)
  have 1: "length (claudeOutputBuffer ?w) > 0"
    by (simp add: idle_def)
  have 2: "length (claudeResponseOf 0 ?w) > 10"
    unfolding k by (simp add: js_def)
  have f: "prompts ?w = []" "personalityPrompt ?w = []"
    by (simp_all add: idle_def)
  have 3: "\<not> succeeded (failsFirst (js ''down'') (js ''hi'') (length (prompts ?w))
                (simplePrompt (js ''ls'') (claudeResponseOf 0 ?w) (personalityPrompt ?w)))"
    by (simp add: f failsFirst_def succeeded_def)
  note t = assisted_error_falls_through[where ol = "failsFirst (js ''down'') (js ''hi'')"
        and ui = "js ''ls''" and w = ?w and init = 0, OF 1 2 3, unfolded k f]
  have "fst (afterLoop (failsFirst (js ''down'') (js ''hi'')) (js ''ls'') 0 ?w)
          = Reply (js ''hi'') (js ''gemma'')"
    unfolding t[THEN conjunct2, THEN conjunct2] by (simp add: failsFirst_def js_def)
  with t[THEN conjunct1] t[THEN conjunct2, THEN conjunct1] show ?thesis
    by simp
qed

text \<open>
  The claim as stated fails: the session answers the request \<open>ls\<close> with a file line, the
  loop ends on stability after seven ticks, the first call of the secondary model, with
  the assisted prompt, reports the error \<open>down\<close>, and the caller gets the reply of a second
  call, tagged \<open>gemma\<close>, not a failure.
\<close>

theorem assisted_error_not_surfaced:
  "processRequest (failsFirst (js ''down'') (js ''hi'')) None (js ''ls'')
     (idle\<lparr>pending := [[], [], [Data (js ''- a.js is here'')]]\<rparr>)
   = (Reply (js ''hi'') (js ''gemma''),
      idle\<lparr>personalityPrompt := js ''You are a helpful AI assistant.'',
           claudeOutputBuffer := [js ''- a.js is here''],
           written := [[3], js ''ls'', [13]],
           timers := [100, 100, 500, 500, 500, 500, 500, 500, 500],
           prompts := [simplePrompt (js ''ls'') (js ''- a.js is here'') (js ''You are a helpful AI assistant.''),
                       fullPrompt (js ''ls'') (js ''You are a helpful AI assistant.'')]\<rparr>)
   \<and> failsFirst (js ''down'') (js ''hi'') 0
         (simplePrompt (js ''ls'') (js ''- a.js is here'') (js ''You are a helpful AI assistant.''))
       = \<lparr>response = None, error = Some (js ''down'')\<rparr>"
  by (simp add: request_eval state_eval approve_eval classify_eval prompt_eval regex_eval failsFirst_def)

section \<open>A session that produces no output\<close>

lemma silentPending_tl: "silentPending evs \<Longrightarrow> silentPending (tl evs)"
  by (cases evs) (simp_all add: silentPending_def)

lemma silentPending_noExit: "silentPending evs \<Longrightarrow> noExit evs"
  unfolding silentPending_def noExit_def list_all_iff
  using silentEvent.simps(2) by blast

lemma pushContent_nothing: "length (pushContent b []) \<le> length b"
  by (simp add: pushContent_def sliceLast_def)

lemma handleEvent_silent:
  "silentEvent e \<Longrightarrow> length (claudeOutputBuffer (handleEvent w e)) \<le> length (claudeOutputBuffer w)"
  by (cases e) (simp_all add: onData_def pushContent_nothing)

lemma foldl_handleEvent_silent:
  "list_all silentEvent es \<Longrightarrow>
     length (claudeOutputBuffer (foldl handleEvent w es)) \<le> length (claudeOutputBuffer w)"
proof (induction es arbitrary: w)
  case Nil
  show ?case by simp
next
  case (Cons e es)
  have "length (claudeOutputBuffer (foldl handleEvent (handleEvent w e) es))
          \<le> length (claudeOutputBuffer (handleEvent w e))"
    using Cons by simp
  also have "\<dots> \<le> length (claudeOutputBuffer w)"
    using Cons.prems by (simp add: handleEvent_silent)
  finally show ?case by simp
qed

lemma yield_silent:
  "silentPending (pending w) \<Longrightarrow>
     length (claudeOutputBuffer (yield w)) \<le> length (claudeOutputBuffer w)"
proof (cases "pending w")
  case Nil
  then show ?thesis by (simp add: yield_def)
next
  case (Cons batch rest)
  assume "silentPending (pending w)"
  then have "list_all silentEvent batch"
    using Cons by (simp add: silentPending_def)
  then show ?thesis
    using foldl_handleEvent_silent[of batch "w\<lparr>pending := rest\<rparr>"] Cons
    by (simp add: yield_def)
qed

lemma sleep_silent:
  "silentPending (pending w) \<Longrightarrow>
     length (claudeOutputBuffer (sleep ms w)) \<le> length (claudeOutputBuffer w)"
  using yield_silent[of "w\<lparr>timers := timers w @ [ms]\<rparr>"] by (simp add: sleep_def)

lemma tick_silent:
  assumes "silentPending (pending w)"
      and "length (claudeOutputBuffer w) \<le> lastLen" and "lastLen \<le> init"
  shows "tick ol ui init lastLen stableCount w = Continue lastLen (stableCount + 1) (sleep 500 w)"
  using sleep_silent[OF assms(1), of 500] assms(2,3) by (simp add: tick_def Let_def)

lemma funpow_sleep_fields:
  "written ((sleep ms ^^ n) w) = written w"
  "timers ((sleep ms ^^ n) w) = timers w @ replicate n ms"
  "prompts ((sleep ms ^^ n) w) = prompts w"
  "personalityPrompt ((sleep ms ^^ n) w) = personalityPrompt w"
  by (induction n; simp add: replicate_append_same)+

lemma funpow_sleep_silent:
  "silentPending (pending w) \<Longrightarrow>
     silentPending (pending ((sleep ms ^^ n) w))
     \<and> length (claudeOutputBuffer ((sleep ms ^^ n) w)) \<le> length (claudeOutputBuffer w)"
proof (induction n)
  case 0
  then show ?case by simp
next
  case (Suc n)
  then have a: "silentPending (pending ((sleep ms ^^ n) w))"
    and b: "length (claudeOutputBuffer ((sleep ms ^^ n) w)) \<le> length (claudeOutputBuffer w)"
    by simp_all
  show ?case
    using sleep_silent[OF a, of ms] b by (simp add: silentPending_tl[OF a])
qed

lemma pollLoop_silent:
  assumes "silentPending (pending w)"
      and "length (claudeOutputBuffer w) \<le> lastLen" and "lastLen \<le> init"
  shows "pollLoop ol ui init n lastLen stableCount w = (Finished, (sleep 500 ^^ n) w)"
  using assms
proof (induction n arbitrary: stableCount w)
  case 0
  show ?case by simp
next
  case (Suc n)
  have s: "silentPending (pending (sleep 500 w))"
    using Suc.prems(1) by (simp add: silentPending_tl)
  have l: "length (claudeOutputBuffer (sleep 500 w)) \<le> lastLen"
    using sleep_silent[OF Suc.prems(1), of 500] Suc.prems(2) by simp
  show ?case
    by (simp add: tick_silent[OF Suc.prems] Suc.IH[OF s l Suc.prems(3)] funpow_swap1)
qed

lemma sendToClaudeCode_silent:
  assumes "claudeProcess w" and "silentPending (pending w)"
  shows "\<exists>w1. sendToClaudeCode input w = (None, w1)
           \<and> written w1 = written w @ [[3], input, [13]]
           \<and> timers w1 = timers w @ [100, 100]
           \<and> prompts w1 = prompts w
           \<and> personalityPrompt w1 = personalityPrompt w
           \<and> silentPending (pending w1)
           \<and> length (claudeOutputBuffer w1) \<le> length (claudeOutputBuffer w)"
proof -
  let ?w1 = "w\<lparr>written := written w @ [[3]]\<rparr>"
  let ?w2 = "sleep 100 ?w1"
  let ?w3 = "?w2\<lparr>written := written ?w2 @ [input]\<rparr>"
  let ?w4 = "sleep 100 ?w3"
  let ?w5 = "?w4\<lparr>written := written ?w4 @ [[13]]\<rparr>"
  have s1: "silentPending (pending ?w1)"
    using assms(2) by simp
  have s3: "silentPending (pending ?w3)"
    using assms(2) by (simp add: silentPending_tl)
  have a2: "claudeProcess ?w2"
    using assms(1) silentPending_noExit[OF s1] by (simp add: sleep_alive)
  have a4: "claudeProcess ?w4"
    using a2 silentPending_noExit[OF s3] by (simp add: sleep_alive)
  have eq: "sendToClaudeCode input w = (None, ?w5)"
    using assms(1) a2 a4 by (simp add: sendToClaudeCode_def ptyWrite_def)
  have l2: "length (claudeOutputBuffer ?w2) \<le> length (claudeOutputBuffer w)"
    using sleep_silent[OF s1, of 100] by simp
  have l4: "length (claudeOutputBuffer ?w4) \<le> length (claudeOutputBuffer ?w2)"
    using sleep_silent[OF s3, of 100] by simp
  have "silentPending (pending ?w5)"
    using silentPending_tl[OF s3] by simp
  moreover have "length (claudeOutputBuffer ?w5) \<le> length (claudeOutputBuffer w)"
    using l2 l4 by simp
  ultimately show ?thesis
    unfolding eq by simp
qed

lemma loadPersonalityPrompt_fields [simp]:
  "written (loadPersonalityPrompt file w) = written w"
  "timers (loadPersonalityPrompt file w) = timers w"
  "prompts (loadPersonalityPrompt file w) = prompts w"
  "pending (loadPersonalityPrompt file w) = pending w"
  "claudeProcess (loadPersonalityPrompt file w) = claudeProcess w"
  "claudeOutputBuffer (loadPersonalityPrompt file w) = claudeOutputBuffer w"
  by (cases "file"; simp add: loadPersonalityPrompt_def)+

text \<open>
  Claim C5. When the request goes to the session and every event that arrives afterwards
  is a chunk from which no line is kept, the request is written, the polling loop awaits
  the 500 ms timer \<open>maxWait\<close> = 60 times and ends without a result, nothing is sent to the
  secondary model meanwhile, and the request is answered on the direct path: the direct
  prompt is the only one sent, and the caller gets the reply to it, tagged \<open>gemma\<close> (the
  text \<open>No response generated.\<close> when the reply is empty). The loop running out is not
  reported; the outcome is a failure only when the secondary model itself reports an
  error for the direct prompt.
\<close>

theorem no_output_times_out:
  assumes "isTechnical ui" and "claudeProcess w0" and "silentPending (pending w0)"
  shows "(\<exists>w1 w2.
           sendToClaudeCode (enhancedInput ui) (loadPersonalityPrompt pfile w0) = (None, w1)
         \<and> pollLoop ol ui (length (claudeOutputBuffer w0)) maxWait
                (length (claudeOutputBuffer w0)) 0 w1 = (Finished, w2)
         \<and> maxWait = 60
         \<and> timers w2 = timers w1 @ replicate 60 500
         \<and> written w2 = written w0 @ [[3], enhancedInput ui, [13]]
         \<and> prompts w2 = prompts w0
         \<and> processRequest ol pfile ui w0 = pureGemma ol ui w2)
       \<and> prompts (snd (processRequest ol pfile ui w0)) =
           prompts w0 @ [fullPrompt ui (personalityPrompt (loadPersonalityPrompt pfile w0))]
       \<and> written (snd (processRequest ol pfile ui w0)) = written w0 @ [[3], enhancedInput ui, [13]]
       \<and> fst (processRequest ol pfile ui w0) =
           (case error (ol (length (prompts w0))
                   (fullPrompt ui (personalityPrompt (loadPersonalityPrompt pfile w0)))) of
              Some e \<Rightarrow>
                if e \<noteq> [] then Failure e
                else Reply (case response (ol (length (prompts w0))
                              (fullPrompt ui (personalityPrompt (loadPersonalityPrompt pfile w0)))) of
                              Some r \<Rightarrow> if r \<noteq> [] then r else js ''No response generated.''
                            | None \<Rightarrow> js ''No response generated.'') (js ''gemma'')
            | None \<Rightarrow>
                Reply (case response (ol (length (prompts w0))
                         (fullPrompt ui (personalityPrompt (loadPersonalityPrompt pfile w0)))) of
                         Some r \<Rightarrow> if r \<noteq> [] then r else js ''No response generated.''
                       | None \<Rightarrow> js ''No response generated.'') (js ''gemma''))"
proof -
  let ?w = "loadPersonalityPrompt pfile w0"
  let ?n = "length (claudeOutputBuffer w0)"
  have a: "claudeProcess ?w" "silentPending (pending ?w)"
    using assms(2,3) by simp_all
  obtain w1 where w1: "sendToClaudeCode (enhancedInput ui) ?w = (None, w1)"
      "written w1 = written ?w @ [[3], enhancedInput ui, [13]]"
      "prompts w1 = prompts ?w" "personalityPrompt w1 = personalityPrompt ?w"
      "silentPending (pending w1)"
      "length (claudeOutputBuffer w1) \<le> length (claudeOutputBuffer ?w)"
    using sendToClaudeCode_silent[OF a, of "enhancedInput ui"] by blast
  let ?w2 = "(sleep 500 ^^ maxWait) w1"
  have len1: "length (claudeOutputBuffer w1) \<le> ?n"
    using w1(6) by simp
  have loop: "pollLoop ol ui ?n maxWait ?n 0 w1 = (Finished, ?w2)"
    by (rule pollLoop_silent[OF w1(5) len1 order_refl])
  have len2: "length (claudeOutputBuffer ?w2) \<le> ?n"
    using funpow_sleep_silent[OF w1(5), where ms = 500 and n = maxWait] len1 by simp
  have after: "afterLoop ol ui ?n ?w2 = pureGemma ol ui ?w2"
    using len2 by (simp add: afterLoop_def)
  have req: "processRequest ol pfile ui w0 = pureGemma ol ui ?w2"
    using assms(1) a(1) w1(1) loop after by (simp add: processRequest_def Let_def)
  have f: "timers ?w2 = timers w1 @ replicate 60 500"
      "written ?w2 = written w0 @ [[3], enhancedInput ui, [13]]"
      "prompts ?w2 = prompts w0"
      "personalityPrompt ?w2 = personalityPrompt ?w"
    using w1(2,3,4) by (simp_all add: funpow_sleep_fields maxWait_def)
  have p: "prompts (snd (processRequest ol pfile ui w0)) =
          prompts w0 @ [fullPrompt ui (personalityPrompt ?w)]"
    unfolding req pureGemma_eq snd_conv generate_fields f by simp
  have wr: "written (snd (processRequest ol pfile ui w0)) = written w0 @ [[3], enhancedInput ui, [13]]"
    unfolding req by (simp add: f)
  have out: "fst (processRequest ol pfile ui w0) =
           (case error (ol (length (prompts w0)) (fullPrompt ui (personalityPrompt ?w))) of
              Some e \<Rightarrow>
                if e \<noteq> [] then Failure e
                else Reply (case response (ol (length (prompts w0))
                              (fullPrompt ui (personalityPrompt ?w))) of
                              Some r \<Rightarrow> if r \<noteq> [] then r else js ''No response generated.''
                            | None \<Rightarrow> js ''No response generated.'') (js ''gemma'')
            | None \<Rightarrow>
                Reply (case response (ol (length (prompts w0))
                         (fullPrompt ui (personalityPrompt ?w))) of
                         Some r \<Rightarrow> if r \<noteq> [] then r else js ''No response generated.''
                       | None \<Rightarrow> js ''No response generated.'') (js ''gemma''))"
    unfolding req pureGemma_eq fst_conv f by (rule refl)
  have "\<exists>w1 w2.
           sendToClaudeCode (enhancedInput ui) ?w = (None, w1)
         \<and> pollLoop ol ui ?n maxWait ?n 0 w1 = (Finished, w2)
         \<and> maxWait = 60
         \<and> timers w2 = timers w1 @ replicate 60 500
         \<and> written w2 = written w0 @ [[3], enhancedInput ui, [13]]
         \<and> prompts w2 = prompts w0
         \<and> processRequest ol pfile ui w0 = pureGemma ol ui w2"
    using w1(1) loop f(1,2,3) req by (simp add: maxWait_def)
  with p wr out show ?thesis
    by (intro conjI)
qed

theorem no_output_times_out_witness:
  "(\<exists>w1 w2.
      sendToClaudeCode (enhancedInput (js ''ls'')) (loadPersonalityPrompt None
          (idle\<lparr>pending := [[], [], [Data ([10043, 32] @ js ''Musing'' @ [8230])]]\<rparr>)) = (None, w1)
    \<and> pollLoop (replies (js ''hi'')) (js ''ls'') 0 maxWait 0 0 w1 = (Finished, w2)
    \<and> timers w2 = timers w1 @ replicate 60 500
    \<and> written w2 = [[3], js ''ls'', [13]]
    \<and> prompts w2 = []
    \<and> processRequest (replies (js ''hi'')) None (js ''ls'')
          (idle\<lparr>pending := [[], [], [Data ([10043, 32] @ js ''Musing'' @ [8230])]]\<rparr>)
        = pureGemma (replies (js ''hi'')) (js ''ls'') w2)
   \<and> prompts (snd (processRequest (replies (js ''hi'')) None (js ''ls'')
          (idle\<lparr>pending := [[], [], [Data ([10043, 32] @ js ''Musing'' @ [8230])]]\<rparr>)))
        = [fullPrompt (js ''ls'') (js ''You are a helpful AI assistant.'')]
   \<and> written (snd (processRequest (replies (js ''hi'')) None (js ''ls'')
          (idle\<lparr>pending := [[], [], [Data ([10043, 32] @ js ''Musing'' @ [8230])]]\<rparr>)))
        = [[3], js ''ls'', [13]]
   \<and> fst (processRequest (replies (js ''hi'')) None (js ''ls'')
          (idle\<lparr>pending := [[], [], [Data ([10043, 32] @ js ''Musing'' @ [8230])]]\<rparr>))
        = Reply (js ''hi'') (js ''gemma'')"
proof -
  let ?w0 = "idle\<lparr>pending := [[], [], [Data ([10043, 32] @ js ''Musing'' @ [8230])]]\<rparr>"
  have 1: "isTechnical (js ''ls'')"
    by (simp add: isTechnical_def technicalKeywords_def js_def)
  have 2: "claudeProcess ?w0"
    by (simp add: idle_def)
  have 3: "silentPending (pending ?w0)"
    by (simp add: idle_def silentPending_def classify_eval regex_eval)
  have 4: "enhancedInput (js ''ls'') = js ''ls''"
    by (simp add: enhancedInput_def js_def)
  have 5: "claudeOutputBuffer ?w0 = []" "written ?w0 = []" "prompts ?w0 = []"
    "personalityPrompt (loadPersonalityPrompt None ?w0) = js ''You are a helpful AI assistant.''"
    by (simp_all add: idle_def loadPersonalityPrompt_def)
  note t = no_output_times_out[OF 1 2 3, where pfile = None and ol = "replies (js ''hi'')",
      unfolded 4 5 list.size append_Nil]
  have a: "\<exists>w1 w2.
      sendToClaudeCode (js ''ls'') (loadPersonalityPrompt None ?w0) = (None, w1)
    \<and> pollLoop (replies (js ''hi'')) (js ''ls'') 0 maxWait 0 0 w1 = (Finished, w2)
    \<and> timers w2 = timers w1 @ replicate 60 500
    \<and> written w2 = [[3], js ''ls'', [13]]
    \<and> prompts w2 = []
    \<and> processRequest (replies (js ''hi'')) None (js ''ls'') ?w0
        = pureGemma (replies (js ''hi'')) (js ''ls'') w2"
    using t[THEN conjunct1] by blast
  have b: "prompts (snd (processRequest (replies (js ''hi'')) None (js ''ls'') ?w0))
        = [fullPrompt (js ''ls'') (js ''You are a helpful AI assistant.'')]"
    using t[THEN conjunct2, THEN conjunct1] .
  have c: "written (snd (processRequest (replies (js ''hi'')) None (js ''ls'') ?w0))
        = [[3], js ''ls'', [13]]"
    using t[THEN conjunct2, THEN conjunct2, THEN conjunct1] .
  have d: "fst (processRequest (replies (js ''hi'')) None (js ''ls'') ?w0)
        = Reply (js ''hi'') (js ''gemma'')"
    unfolding t[THEN conjunct2, THEN conjunct2, THEN conjunct2]
    by (simp add: replies_def js_def)
  from a b c d show ?thesis
    unfolding 4 by (intro conjI)
qed

section \<open>Animation lines\<close>

lemma greedyRems_dropWhile: "dropWhile (matchAtom a) s \<in> set (greedyRems a s)"
  by (induction s) auto

lemma rems_Cat_nonempty: "t \<in> set (rems r1 s) \<Longrightarrow> rems r2 t \<noteq> [] \<Longrightarrow> rems (Cat r1 r2) s \<noteq> []"
  by auto

lemma matchAtom_space [simp]: "matchAtom (In [S]) = isWhiteSpace"
  by (rule ext) simp

lemma matchAtom_word [simp]: "matchAtom (In [W]) = isWordChar"
  by (rule ext) simp

lemma animationLine_matches:
  assumes "animationLine line"
  shows "rx_matchStart animationPattern line"
proof -
  from assms obtain glyph rest where line: "line = glyph # rest"
    by (cases line) (simp_all add: animationLine_def)
  let ?r1 = "dropWhile isWhiteSpace rest"
  from assms have g: "glyph \<in> set [10043, 10045, 10038, 42, 10018, 183, 9874]"
    and w: "takeWhile isWordChar ?r1 \<noteq> []"
    and e: "dropWhile isWordChar ?r1 = [8230]"
    unfolding line animationLine_def by simp_all
  from w obtain x xs where r1: "?r1 = x # xs" and x: "isWordChar x"
    by (cases ?r1) (auto split: if_splits)
  from e have e': "dropWhile isWordChar xs = [8230]"
    unfolding r1 using x by simp
  have "[8230] \<in> set (greedyRems (In [W]) xs)"
    using greedyRems_dropWhile[of "In [W]" xs] e' by simp
  then have word: "rems (Cat (Plus (In [W])) (Lit [8230])) ?r1 \<noteq> []"
    unfolding r1 using x by (intro rems_Cat_nonempty[where t = "[8230]"]) simp_all
  have "?r1 \<in> set (rems (Star (In [S])) rest)"
    using greedyRems_dropWhile[of "In [S]" rest] by simp
  then have tail: "rems (Cat (Star (In [S])) (Cat (Plus (In [W])) (Lit [8230]))) rest \<noteq> []"
    using word by (rule rems_Cat_nonempty)
  have "rest \<in> set (rems (One (In animationGlyphs)) line)"
    unfolding line using g by (auto simp: animationGlyphs_def)
  then have "rems (Cat (One (In animationGlyphs))
                (Cat (Star (In [S])) (Cat (Plus (In [W])) (Lit [8230])))) line \<noteq> []"
    using tail by (rule rems_Cat_nonempty)
  then show ?thesis
    by (simp add: rx_matchStart_def animationPattern_def)
qed

lemma extract_animation_lines:
  "list_all (\<lambda>line. line = [] \<or> animationLine line) lines \<Longrightarrow>
     extractMeaningfulContent lines = []"
  by (induction lines) (auto simp: animationLine_matches)

text \<open>
  Claim C9, as amended. When every line of a chunk, after the escape sequences and
  carriage returns are removed and the line is trimmed, is empty or an animation line in
  the sense of the classifier's pattern (one of its seven glyphs, optional white space, a
  word of ASCII letters, digits and underscores, the character U+2026), the classifier
  keeps no line of the chunk, and the handler appends nothing: the buffer stays as it is,
  but for the cut to its last 2500 lines, which the handler makes whenever the buffer
  holds more than 5000.
\<close>

theorem animation_chunk_emits_nothing:
  assumes "\<forall>line \<in> set (allLines d). line = [] \<or> animationLine line"
  shows "extractMeaningfulContent (allLines d) = []
         \<and> claudeOutputBuffer (onData w d) =
             (if length (claudeOutputBuffer w) > 5000 then sliceLast 2500 (claudeOutputBuffer w)
              else claudeOutputBuffer w)"
proof -
  have "extractMeaningfulContent (allLines d) = []"
    using assms by (intro extract_animation_lines) (simp add: list_all_iff)
  then show ?thesis
    by (simp add: onData_def pushContent_def)
qed

theorem animation_chunk_emits_nothing_witness:
  "allLines ([27, 91, 51, 54, 109, 10043, 32] @ js ''Musing'' @ [8230, 27, 91, 48, 109, 13, 10, 183]
             @ js ''Pondering'' @ [8230, 13, 10])
     = [[10043, 32] @ js ''Musing'' @ [8230], [183] @ js ''Pondering'' @ [8230], []]
   \<and> animationLine ([10043, 32] @ js ''Musing'' @ [8230])
   \<and> animationLine ([183] @ js ''Pondering'' @ [8230])
   \<and> extractMeaningfulContent
         (allLines ([27, 91, 51, 54, 109, 10043, 32] @ js ''Musing'' @ [8230, 27, 91, 48, 109, 13, 10, 183]
             @ js ''Pondering'' @ [8230, 13, 10])) = []
   \<and> claudeOutputBuffer
         (onData (idle\<lparr>claudeOutputBuffer := [js ''- a.js'']\<rparr>)
            ([27, 91, 51, 54, 109, 10043, 32] @ js ''Musing'' @ [8230, 27, 91, 48, 109, 13, 10, 183]
             @ js ''Pondering'' @ [8230, 13, 10]))
       = [js ''- a.js'']"
proof -
  let ?d = "[27, 91, 51, 54, 109, 10043, 32] @ js ''Musing'' @ [8230, 27, 91, 48, 109, 13, 10, 183]
             @ js ''Pondering'' @ [8230, 13, 10]"
  have l: "allLines ?d = [[10043, 32] @ js ''Musing'' @ [8230], [183] @ js ''Pondering'' @ [8230], []]"
    by (simp add: allLines_def cleanData_def rx_removeAll_def colourCode_def escapeSequence_def
        trim_def trimStart_def trimEnd_def regex_eval)
  have a: "animationLine ([10043, 32] @ js ''Musing'' @ [8230])"
    "animationLine ([183] @ js ''Pondering'' @ [8230])"
    by (simp_all add: animationLine_def regex_eval)
  have h: "\<forall>line \<in> set (allLines ?d). line = [] \<or> animationLine line"
    unfolding l using a by simp
  show ?thesis
    using animation_chunk_emits_nothing[OF h, of "idle\<lparr>claudeOutputBuffer := [js ''- a.js'']\<rparr>"] l a
    by (simp add: idle_def)
qed

text \<open>
  The claim as stated fails: a glyph, a word and an ellipsis do not make a line that is
  dropped when the ellipsis is three full stops, as in \<open>Spelunking...\<close> after U+273B, or
  when the glyph is not one of the seven, as U+2733 before \<open>Musing\<close> and U+2026. The
  classifier keeps both lines, and the handler appends them to the buffer.
\<close>

theorem other_animation_lines_kept:
  "extractMeaningfulContent (allLines ([10043, 32] @ js ''Spelunking...''))
     = [[10043, 32] @ js ''Spelunking...'']
   \<and> extractMeaningfulContent (allLines ([10035, 32] @ js ''Musing'' @ [8230]))
     = [[10035, 32] @ js ''Musing'' @ [8230]]
   \<and> claudeOutputBuffer (onData idle ([10043, 32] @ js ''Spelunking...''))
     = [[10043, 32] @ js ''Spelunking...'']
   \<and> claudeOutputBuffer (onData idle ([10035, 32] @ js ''Musing'' @ [8230]))
     = [[10035, 32] @ js ''Musing'' @ [8230]]"
proof -
  have 1: "extractMeaningfulContent (allLines ([10043, 32] @ js ''Spelunking...''))
             = [[10043, 32] @ js ''Spelunking...'']"
    by (simp add: classify_eval regex_eval)
  have 2: "extractMeaningfulContent (allLines ([10035, 32] @ js ''Musing'' @ [8230]))
             = [[10035, 32] @ js ''Musing'' @ [8230]]"
    by (simp add: classify_eval regex_eval)
  have 3: "claudeOutputBuffer (onData idle ([10043, 32] @ js ''Spelunking...''))
             = [[10043, 32] @ js ''Spelunking...'']"
    unfolding onData_def 1 by (simp add: pushContent_def idle_def)
  have 4: "claudeOutputBuffer (onData idle ([10035, 32] @ js ''Musing'' @ [8230]))
             = [[10035, 32] @ js ''Musing'' @ [8230]]"
    unfolding onData_def 2 by (simp add: pushContent_def idle_def)
  from 1 2 3 4 show ?thesis by simp
qed

section \<open>The request cursor and the cut of the buffer\<close>

lemma extract_abc: "extractMeaningfulContent (allLines (js ''abc'')) = [js ''abc'']"
  by (simp add: classify_eval regex_eval)

lemma onData_abc:
  "claudeOutputBuffer (onData w (js ''abc'')) = pushContent (claudeOutputBuffer w) [js ''abc'']"
  by (simp add: onData_def extract_abc)

lemma foldl_burst:
  "length (claudeOutputBuffer w) + n \<le> 5000 \<Longrightarrow>
     claudeOutputBuffer (foldl handleEvent w (replicate n (Data (js ''abc''))))
       = claudeOutputBuffer w @ replicate n (js ''abc'')"
proof (induction n arbitrary: w)
  case 0
  show ?case by simp
next
  case (Suc n)
  have one: "claudeOutputBuffer (onData w (js ''abc'')) = claudeOutputBuffer w @ [js ''abc'']"
    using Suc.prems by (simp add: onData_abc pushContent_eq)
  have "length (claudeOutputBuffer (onData w (js ''abc''))) + n \<le> 5000"
    using Suc.prems by (simp add: one)
  from Suc.IH[OF this] show ?case
    by (simp add: one replicate_app_Cons_same)
qed

lemma burst_cut:
  assumes "length (claudeOutputBuffer v) = 4000"
  shows "length (claudeOutputBuffer (foldl handleEvent v (replicate 1001 (Data (js ''abc''))))) = 2500"
proof -
  have split: "replicate 1001 (Data (js ''abc'')) = replicate 1000 (Data (js ''abc'')) @ [Data (js ''abc'')]"
  proof -
    have "(1001::nat) = Suc 1000" by simp
    then show ?thesis
      by (simp only: replicate.simps replicate_append_same)
  qed
  have "claudeOutputBuffer (foldl handleEvent v (replicate 1000 (Data (js ''abc''))))
          = claudeOutputBuffer v @ replicate 1000 (js ''abc'')"
    by (rule foldl_burst) (simp add: assms)
  then have full: "length (claudeOutputBuffer (foldl handleEvent v (replicate 1000 (Data (js ''abc''))))) = 5000"
    by (simp add: assms)
  show ?thesis
    unfolding split foldl_append using full
    by (simp add: onData_abc pushContent_eq del: drop_append)
qed

lemma pureGemma_silent:
  assumes "silentPending (pending w)"
  shows "length (claudeOutputBuffer (snd (pureGemma ol ui w))) \<le> length (claudeOutputBuffer w)"
  using yield_silent[of "w\<lparr>prompts := prompts w @ [fullPrompt ui (personalityPrompt w)]\<rparr>"] assms
  by (simp add: pureGemma_eq generate_def)

text \<open>
  Claim C8 fails on the source. A request for \<open>ls\<close> starts with 4000 lines in the buffer,
  so its cursor is 4000. During the first tick the session answers with 1001 lines: the
  buffer reaches 5001 lines and is cut to 2500, fewer than the cursor, and it stays so to
  the end of the request. The loop never sees the buffer longer than the cursor, runs
  out, and the request takes the direct path as if the session had not answered.
\<close>

theorem cursor_exceeds_buffer_after_cut:
  "length (claudeOutputBuffer
      (idle\<lparr>claudeOutputBuffer := replicate 4000 (js ''abc''),
            pending := [[], [], replicate 1001 (Data (js ''abc''))]\<rparr>)) = 4000
   \<and> length (claudeOutputBuffer
        (snd (processRequest (replies (js ''hi'')) None (js ''ls'')
          (idle\<lparr>claudeOutputBuffer := replicate 4000 (js ''abc''),
                pending := [[], [], replicate 1001 (Data (js ''abc''))]\<rparr>)))) \<le> 2500
   \<and> fst (processRequest (replies (js ''hi'')) None (js ''ls'')
          (idle\<lparr>claudeOutputBuffer := replicate 4000 (js ''abc''),
                pending := [[], [], replicate 1001 (Data (js ''abc''))]\<rparr>))
       = Reply (js ''hi'') (js ''gemma'')
   \<and> prompts (snd (processRequest (replies (js ''hi'')) None (js ''ls'')
          (idle\<lparr>claudeOutputBuffer := replicate 4000 (js ''abc''),
                pending := [[], [], replicate 1001 (Data (js ''abc''))]\<rparr>)))
       = [fullPrompt (js ''ls'') (js ''You are a helpful AI assistant.'')]"
proof -
  let ?ol = "replies (js ''hi'')"
  let ?W0 = "idle\<lparr>claudeOutputBuffer := replicate 4000 (js ''abc''),
                  pending := [[], [], replicate 1001 (Data (js ''abc''))]\<rparr>"
  let ?w1 = "idle\<lparr>personalityPrompt := js ''You are a helpful AI assistant.'',
                  claudeOutputBuffer := replicate 4000 (js ''abc''),
                  written := [[3], js ''ls'', [13]], timers := [100, 100],
                  pending := [replicate 1001 (Data (js ''abc''))]\<rparr>"
  let ?v = "?w1\<lparr>timers := [100, 100, 500], pending := []\<rparr>"
  let ?w2 = "sleep 500 ?w1"
  let ?w3 = "(sleep 500 ^^ 59) ?w2"
  have len0: "length (claudeOutputBuffer ?W0) = 4000"
    by (simp add: idle_def)
  have tech: "isTechnical (js ''ls'')"
    by (simp add: isTechnical_def technicalKeywords_def js_def)
  have send: "sendToClaudeCode (enhancedInput (js ''ls'')) (loadPersonalityPrompt None ?W0) = (None, ?w1)"
    by (simp add: enhancedInput_def loadPersonalityPrompt_def state_eval approve_eval js_def)
  have s: "?w2 = foldl handleEvent ?v (replicate 1001 (Data (js ''abc'')))"
    by (simp add: sleep_def yield_def idle_def)
  have cut: "length (claudeOutputBuffer ?w2) = 2500"
    unfolding s by (rule burst_cut) (simp add: idle_def)
  have quiet: "silentPending (pending ?w2)"
    by (simp add: silentPending_def)
  have first: "tick ?ol (js ''ls'') 4000 4000 0 ?w1 = Continue 4000 1 ?w2"
    using cut by (simp add: tick_def Let_def)
  have rest: "pollLoop ?ol (js ''ls'') 4000 59 4000 1 ?w2 = (Finished, ?w3)"
    by (rule pollLoop_silent[OF quiet]) (simp_all add: cut)
  have loop: "pollLoop ?ol (js ''ls'') 4000 maxWait 4000 0 ?w1 = (Finished, ?w3)"
    unfolding maxWait_def pollLoop_numeral first using rest by simp
  have q3: "silentPending (pending ?w3)" and len3: "length (claudeOutputBuffer ?w3) \<le> 2500"
    using funpow_sleep_silent[OF quiet, where ms = 500 and n = 59] cut by simp_all
  have after: "afterLoop ?ol (js ''ls'') 4000 ?w3 = pureGemma ?ol (js ''ls'') ?w3"
    using len3 by (simp add: afterLoop_def)
  have req: "processRequest ?ol None (js ''ls'') ?W0 = pureGemma ?ol (js ''ls'') ?w3"
    using tech send loop after len0
    by (simp add: processRequest_def Let_def loadPersonalityPrompt_def idle_def)
  have f3: "prompts ?w3 = []" "personalityPrompt ?w3 = js ''You are a helpful AI assistant.''"
    by (simp_all add: funpow_sleep_fields idle_def)
  have "length (claudeOutputBuffer (snd (processRequest ?ol None (js ''ls'') ?W0))) \<le> 2500"
    unfolding req using pureGemma_silent[OF q3, of ?ol "js ''ls''"] len3 by simp
  moreover have "fst (processRequest ?ol None (js ''ls'') ?W0) = Reply (js ''hi'') (js ''gemma'')"
    unfolding req pureGemma_eq fst_conv by (simp add: replies_def js_def)
  moreover have "prompts (snd (processRequest ?ol None (js ''ls'') ?W0))
                   = [fullPrompt (js ''ls'') (js ''You are a helpful AI assistant.'')]"
    unfolding req pureGemma_eq snd_conv generate_fields f3 by simp
  ultimately show ?thesis
    using len0 by simp
qed

end
